theory Spec2Isabelle
  imports Main "HOL-Library.Word"
begin

section \<open>Shared value types\<close>

type_synonym byte = "8 word"

text \<open>
  Go error values that the two packages create or pass on.  \<open>ErrIO\<close> stands for any failure
  of the underlying stream other than end of file, \<open>ErrCallback\<close> for an error returned by a
  caller-supplied callback, \<open>ErrRuntime\<close> for a Go \<open>runtime.Error\<close> (a slice bound out of
  range or a nil dereference, which are panics whose value implements \<open>error\<close>).
\<close>

datatype error =
    ErrNoJPEGMarker
  | ErrEndOfImage
  | ErrInvalidHeader
  | ErrEmptyTag
  | ErrNegativeCount
  | EOF
  | ErrIO nat
  | ErrCallback nat
  | ErrRuntime

datatype ByteOrder = BigEndian | LittleEndian | UnknownEndian

datatype ImageType = ImageUnknown | ImageJPEG | ImageOther nat

section \<open>Package exif: the parse entry points and the tag accessors\<close>

text \<open>
  Modelled from the spec: the directory kinds of package \<open>ifds\<close>, which is not part of the
  sources.  The code under \<open>src\<close> names only \<open>NullIFD\<close> and \<open>IFD0\<close>; the spec lists the
  primary directory, the Exif and GPS sub-directories, the interoperability directory and the
  maker note.
\<close>

datatype IfdType = NullIFD | IFD0 | ExifIFD | GPSIFD | IopIFD | MknoteIFD

text \<open>
  Modelled from the spec: \<open>meta.ExifHeader\<close>, whose declaration is not part of the sources.
  The fields are the ones \<open>ParseExif\<close> and \<open>ParseIfd\<close> read.
\<close>

record ExifHeader =
  ByteOrder :: ByteOrder
  FirstIfdOffset :: "32 word"
  TiffHeaderOffset :: "32 word"
  ExifLength :: "32 word"
  ImageType :: ImageType
  FirstIfd :: IfdType

text \<open>
  Modelled from the spec: the type codes of package \<open>tag\<close>.  \<open>GetTagValue\<close> names seven of
  them; \<open>TypeUndefined\<close> is the further one the spec names, \<open>TypeOther c\<close> is any other code.
\<close>

datatype TagType =
    TypeByte | TypeASCII | TypeASCIINoNul | TypeShort | TypeLong
  | TypeRational | TypeSignedRational | TypeUndefined | TypeOther nat

text \<open>
  Modelled from the spec: \<open>tag.Tag\<close> (identifier, type code, element count, inline value or
  offset).  \<open>zeroTag\<close> is Go's zero value \<open>tag.Tag{}\<close>.
\<close>

record Tag =
  ID :: "16 word"
  tagType :: TagType
  UnitCount :: "32 word"
  ValueOffset :: "32 word"

definition zeroTag :: Tag where
  "zeroTag = \<lparr>ID = 0, tagType = TypeOther 0, UnitCount = 0, ValueOffset = 0\<rparr>"

text \<open>The key of the tag map: \<open>ifds.NewKey(ifd, ifdIndex, tagID)\<close>, kept as the triple.\<close>

type_synonym Key = "IfdType \<times> 8 word \<times> 16 word"

definition NewKey :: "IfdType \<Rightarrow> 8 word \<Rightarrow> 16 word \<Rightarrow> Key" where
  "NewKey ifd ifdIndex tagID = (ifd, ifdIndex, tagID)"

text \<open>The directory reference \<open>ifds.NewIFD(kind, index, offset)\<close>.\<close>

type_synonym Ifd = "IfdType \<times> 8 word \<times> 32 word"

definition NewIFD :: "IfdType \<Rightarrow> 8 word \<Rightarrow> 32 word \<Rightarrow> Ifd" where
  "NewIFD t i off = (t, i, off)"

text \<open>
  The private \<open>reader\<close> of package exif.  Its declaration is not part of the sources; the
  three fields are the ones \<open>ParseIfd\<close> assigns, \<open>source\<close> is the \<open>io.ReaderAt\<close> it wraps.
\<close>

record 'r reader =
  source :: 'r
  exifLength :: "32 word"
  exifOffset :: "32 word"
  byteOrder :: ByteOrder

record 'r Data =
  reader :: "'r reader"
  tagMap :: "Key \<rightharpoonup> Tag"
  dmake :: string
  dmodel :: string
  dwidth :: "16 word"
  dheight :: "16 word"
  exifVersion :: "16 word"
  imageType :: ImageType

text \<open>
  The values \<open>GetTagValue\<close> can put into its \<open>interface{}\<close> result.  \<open>VNil\<close> is the
  untouched named result.
\<close>

datatype Value =
    VNil
  | VString string
  | VUint16 "16 word"
  | VUint16s "16 word list"
  | VUint32 "32 word"
  | VUint32s "32 word list"
  | VRationals "(32 word \<times> 32 word) list"
  | VSRationals "(32 word \<times> 32 word) list"

text \<open>
  Functions of the repository that the sources call and do not contain; they are parameters
  of the model.  Each \<open>Parse*\<close> returns its value and its error; \<open>scanIFD\<close> returns its error
  and the result object it has written to.
\<close>

record 'r exifEnv =
  IsValid :: "ExifHeader \<Rightarrow> bool"
  newReader :: "'r \<Rightarrow> ExifHeader \<Rightarrow> 'r reader"
  scanIFD :: "'r reader \<Rightarrow> 'r Data \<Rightarrow> Ifd \<Rightarrow> error option \<times> 'r Data"
  ParseASCIIValue :: "'r Data \<Rightarrow> Tag \<Rightarrow> string \<times> error option"
  ParseUint16Value :: "'r Data \<Rightarrow> Tag \<Rightarrow> 16 word \<times> error option"
  ParseUint16Values :: "'r Data \<Rightarrow> Tag \<Rightarrow> 16 word list \<times> error option"
  ParseUint32Value :: "'r Data \<Rightarrow> Tag \<Rightarrow> 32 word \<times> error option"
  ParseUint32Values :: "'r Data \<Rightarrow> Tag \<Rightarrow> 32 word list \<times> error option"
  ParseRationalValues :: "'r Data \<Rightarrow> Tag \<Rightarrow> (32 word \<times> 32 word) list \<times> error option"
  ParseSRationalValues :: "'r Data \<Rightarrow> Tag \<Rightarrow> (32 word \<times> 32 word) list \<times> error option"

definition newData :: "'r reader \<Rightarrow> ImageType \<Rightarrow> 'r Data" where
  "newData r it =
     \<lparr>reader = r, tagMap = Map.empty, dmake = [], dmodel = [], dwidth = 0, dheight = 0,
      exifVersion = 0, imageType = it\<rparr>"

text \<open>
  \<open>ParseExif\<close> returns the pair \<open>(*Data, error)\<close>; \<open>None\<close> in the first component is the nil
  pointer.
\<close>

definition ParseExif ::
  "'r exifEnv \<Rightarrow> 'r \<Rightarrow> ExifHeader \<Rightarrow> 'r Data option \<times> error option" where
  "ParseExif env r header =
     (if \<not> IsValid env header then (None, Some ErrInvalidHeader)
      else
        let header = (if FirstIfd header = NullIFD then header\<lparr>FirstIfd := IFD0\<rparr> else header);
            rd = newReader env r header;
            e = newData rd (ImageType header);
            (err, e') = scanIFD env rd e (NewIFD (FirstIfd header) 0 (FirstIfdOffset header))
        in (Some e', err))"

text \<open>\<open>ParseIfd\<close> mutates the receiver; the model returns the error and the new receiver.\<close>

definition ParseIfd :: "'r exifEnv \<Rightarrow> 'r Data \<Rightarrow> ExifHeader \<Rightarrow> error option \<times> 'r Data" where
  "ParseIfd env e header =
     (if \<not> IsValid env header \<or> FirstIfd header = NullIFD then (Some ErrInvalidHeader, e)
      else
        let e1 = e\<lparr>reader := (reader e)\<lparr>exifLength := ExifLength header,
                                         exifOffset := TiffHeaderOffset header,
                                         byteOrder := ByteOrder header\<rparr>\<rparr>
        in scanIFD env (reader e1) e1
             (NewIFD (FirstIfd header) 0 (FirstIfdOffset header)))"

text \<open>
  \<open>GetTag\<close> has a pointer receiver; the model returns the receiver as well, so that what the
  call leaves behind is part of the result.
\<close>

definition GetTag ::
  "'r Data \<Rightarrow> IfdType \<Rightarrow> 8 word \<Rightarrow> 16 word \<Rightarrow> (Tag \<times> error option) \<times> 'r Data" where
  "GetTag e ifd ifdIndex tagID =
     (case tagMap e (NewKey ifd ifdIndex tagID) of
        Some t \<Rightarrow> ((t, None), e)
      | None \<Rightarrow> ((zeroTag, Some ErrEmptyTag), e))"

definition asciiLimit :: nat where
  "asciiLimit = 64"

definition GetTagValue :: "'r exifEnv \<Rightarrow> 'r Data \<Rightarrow> Tag \<Rightarrow> Value" where
  "GetTagValue env e t =
     (case tagType t of
        TypeASCII \<Rightarrow>
          (let str = fst (ParseASCIIValue env e t)
           in if length str > asciiLimit then VString (take asciiLimit str) else VString str)
      | TypeASCIINoNul \<Rightarrow>
          (let str = fst (ParseASCIIValue env e t)
           in if length str > asciiLimit then VString (take asciiLimit str) else VString str)
      | TypeByte \<Rightarrow>
          (let str = fst (ParseASCIIValue env e t)
           in if length str > asciiLimit then VString (take asciiLimit str) else VString str)
      | TypeShort \<Rightarrow>
          (if UnitCount t > 1 then VUint16s (fst (ParseUint16Values env e t))
           else VUint16 (fst (ParseUint16Value env e t)))
      | TypeLong \<Rightarrow>
          (if UnitCount t > 1 then VUint32s (fst (ParseUint32Values env e t))
           else VUint32 (fst (ParseUint32Value env e t)))
      | TypeRational \<Rightarrow> VRationals (fst (ParseRationalValues env e t))
      | TypeSignedRational \<Rightarrow> VSRationals (fst (ParseSRationalValues env e t))
      | TypeUndefined \<Rightarrow> VNil
      | TypeOther c \<Rightarrow> VNil)"

subsection \<open>Example inputs for package exif\<close>

text \<open>
  A concrete environment for the closed theorems below: a header counts as valid when its
  byte order is recognised, the directory walk stores one tag (Make, id 0x010F) under the
  directory it is started on, and the ASCII parser delivers a value of 70 characters.
\<close>

definition exampleTag :: Tag where
  "exampleTag = \<lparr>ID = 0x010F, tagType = TypeASCII, UnitCount = 70, ValueOffset = 0x9E\<rparr>"

definition exampleUndefinedTag :: Tag where
  "exampleUndefinedTag = \<lparr>ID = 0x927C, tagType = TypeUndefined, UnitCount = 4, ValueOffset = 0\<rparr>"

definition exampleNewReader :: "unit \<Rightarrow> ExifHeader \<Rightarrow> unit reader" where
  "exampleNewReader r h =
     \<lparr>source = r, exifLength = ExifLength h, exifOffset = TiffHeaderOffset h,
      byteOrder = ByteOrder h\<rparr>"

definition exampleScanIFD :: "unit reader \<Rightarrow> unit Data \<Rightarrow> Ifd \<Rightarrow> error option \<times> unit Data" where
  "exampleScanIFD rd e ifd =
     (None, e\<lparr>tagMap := (tagMap e)(NewKey (fst ifd) (fst (snd ifd)) 0x010F \<mapsto> exampleTag)\<rparr>)"

definition exampleIsValid :: "ExifHeader \<Rightarrow> bool" where
  "exampleIsValid h = (ByteOrder h \<noteq> UnknownEndian)"

definition exampleParseASCII :: "unit Data \<Rightarrow> Tag \<Rightarrow> string \<times> error option" where
  "exampleParseASCII e t = (replicate 70 CHR ''A'', None)"

definition exampleEnv :: "unit exifEnv" where
  "exampleEnv =
     \<lparr>IsValid = exampleIsValid,
      newReader = exampleNewReader,
      scanIFD = exampleScanIFD,
      ParseASCIIValue = exampleParseASCII,
      ParseUint16Value = (\<lambda>e t. (0, None)),
      ParseUint16Values = (\<lambda>e t. ([], None)),
      ParseUint32Value = (\<lambda>e t. (0, None)),
      ParseUint32Values = (\<lambda>e t. ([], None)),
      ParseRationalValues = (\<lambda>e t. ([], None)),
      ParseSRationalValues = (\<lambda>e t. ([], None))\<rparr>"

definition exampleHeader :: ExifHeader where
  "exampleHeader =
     \<lparr>ByteOrder = LittleEndian, FirstIfdOffset = 8, TiffHeaderOffset = 12, ExifLength = 1000,
      ImageType = ImageJPEG, FirstIfd = NullIFD\<rparr>"

definition exampleBadHeader :: ExifHeader where
  "exampleBadHeader = exampleHeader\<lparr>ByteOrder := UnknownEndian, FirstIfd := IFD0\<rparr>"

definition exampleData :: "unit Data" where
  "exampleData =
     (newData (exampleNewReader () (exampleHeader\<lparr>FirstIfd := IFD0\<rparr>)) ImageJPEG)
       \<lparr>tagMap := [NewKey IFD0 0 0x010F \<mapsto> exampleTag]\<rparr>"

section \<open>Package jpeg: the marker scanner\<close>

subsection \<open>The buffered stream\<close>

text \<open>
  The scanner reads through a \<open>bufio.Reader\<close>.  The model keeps what the scanner can observe
  of it: \<open>pending\<close>, the bytes of the stream not consumed yet; \<open>rerr\<close>, the error the
  underlying reader gives once they are used up (\<open>EOF\<close> or an I/O failure); and \<open>spare\<close>.
  \<open>Peek n\<close> returns a slice of length \<open>n\<close> of bufio's internal array, and a Go slice
  expression may reach past the length up to the capacity, which \<open>isXMPPrefix\<close> and
  \<open>isXMPPrefixExt\<close> do (\<open>buf[4:33]\<close>, \<open>buf[4:38]\<close> on a window of 16 bytes).  \<open>spare\<close>
  gives the content of the array after the window, as a function of the pending bytes; its
  length is the capacity left.  Nothing is assumed about it.
\<close>

record bufReader =
  pending :: "byte list"
  rerr :: error
  spare :: "byte list \<Rightarrow> byte list"

text \<open>A byte slice: its elements, and what its backing array holds beyond its length.\<close>

record slice =
  elems :: "byte list"
  beyond :: "byte list"

text \<open>
  \<open>bufio.Reader.Peek\<close>: the next \<open>n\<close> bytes without consuming them; when fewer are left,
  those and the reader's error.
\<close>

definition Peek :: "nat \<Rightarrow> bufReader \<Rightarrow> slice \<times> error option" where
  "Peek n rd =
     (if n \<le> length (pending rd)
      then (\<lparr>elems = take n (pending rd), beyond = spare rd (pending rd)\<rparr>, None)
      else (\<lparr>elems = pending rd, beyond = spare rd (pending rd)\<rparr>, Some (rerr rd)))"

text \<open>
  \<open>bufio.Reader.Discard\<close>: skips \<open>n\<close> bytes and returns how many it skipped; a negative
  count is refused with \<open>ErrNegativeCount\<close>, a short skip carries the reader's error.
\<close>

definition Discard :: "int \<Rightarrow> bufReader \<Rightarrow> (nat \<times> error option) \<times> bufReader" where
  "Discard n rd =
     (if n < 0 then ((0, Some ErrNegativeCount), rd)
      else
        let k = min (nat n) (length (pending rd))
        in ((k, if k < nat n then Some (rerr rd) else None),
            rd\<lparr>pending := drop k (pending rd)\<rparr>))"

text \<open>
  \<open>io.LimitReader(r, n)\<close>: a reader that delivers at most \<open>n\<close> bytes of \<open>r\<close> and then
  reports \<open>EOF\<close>.
\<close>

definition LimitReader :: "bufReader \<Rightarrow> int \<Rightarrow> bufReader" where
  "LimitReader rd n =
     rd\<lparr>pending := take (nat n) (pending rd),
        rerr := (if nat n \<le> length (pending rd) then EOF else rerr rd)\<rparr>"

subsection \<open>Callbacks, panics and the scanner state\<close>

text \<open>
  A Go panic carries a value.  The deferred handler of \<open>ScanJPEG\<close> tells values that
  implement \<open>error\<close> (every runtime fault does) from all others.
\<close>

datatype panicval = PanicError error | PanicValue string

text \<open>How a call ends: it returns its error result (\<open>None\<close> is nil), or it panics.\<close>

datatype outcome = Done "error option" | Panicked panicval

text \<open>
  A callback is given the reader; the model asks it how many bytes it consumes from the
  reader and how it ends.  The Exif callback also receives the header.
\<close>

type_synonym exifCallback = "ExifHeader \<Rightarrow> bufReader \<Rightarrow> nat \<times> outcome"
type_synonym xmpCallback = "bufReader \<Rightarrow> nat \<times> outcome"

record sofHeader =
  height :: "16 word"
  width :: "16 word"
  components :: "8 word"

text \<open>
  Ghost events, not in the source: the calls of the callbacks (with the header and the bytes
  that were pending when the call was made) and the calls of \<open>readSOF\<close> (with the nesting
  counter and the header it decoded).  They are only appended to \<open>trace\<close> and never read.
\<close>

datatype event =
    ExifCall ExifHeader "byte list"
  | XMPCall "byte list"
  | SOFRead "8 word" sofHeader

record jpegReader =
  ExifReader :: "exifCallback option"
  XMPReader :: "xmpCallback option"
  br :: bufReader
  sof :: sofHeader
  pos :: "8 word"
  discarded :: "32 word"
  trace :: "event list"

text \<open>
  Functions of package \<open>meta\<close> that the scanner calls and the sources do not contain; they
  are parameters.  \<open>BinaryOrder\<close> returns a \<open>binary.ByteOrder\<close>; \<open>UnknownEndian\<close> stands for
  an unrecognised byte-order mark.
\<close>

record jpegEnv =
  BinaryOrder :: "byte list \<Rightarrow> ByteOrder"
  NewExifHeader :: "ByteOrder \<Rightarrow> 32 word \<Rightarrow> 32 word \<Rightarrow> 32 word \<Rightarrow> ImageType \<Rightarrow> ExifHeader"

definition newJPEGReader ::
  "bufReader \<Rightarrow> exifCallback option \<Rightarrow> xmpCallback option \<Rightarrow> jpegReader" where
  "newJPEGReader r exifReader xmpReader =
     \<lparr>ExifReader = exifReader, XMPReader = xmpReader, br = r,
      sof = \<lparr>height = 0, width = 0, components = 0\<rparr>,
      pos = 0, discarded = 0, trace = []\<rparr>"

subsection \<open>Constants\<close>

definition markerFirstByte :: byte where "markerFirstByte = 0xFF"
definition markerSOF0 :: byte where "markerSOF0 = 0xC0"
definition markerSOF1 :: byte where "markerSOF1 = 0xC1"
definition markerSOF2 :: byte where "markerSOF2 = 0xC2"
definition markerSOF3 :: byte where "markerSOF3 = 0xC3"
definition markerSOF5 :: byte where "markerSOF5 = 0xC5"
definition markerSOF6 :: byte where "markerSOF6 = 0xC6"
definition markerSOF7 :: byte where "markerSOF7 = 0xC7"
definition markerSOF9 :: byte where "markerSOF9 = 0xC9"
definition markerSOF10 :: byte where "markerSOF10 = 0xCA"
definition markerDHT :: byte where "markerDHT = 0xC4"
definition markerSOI :: byte where "markerSOI = 0xD8"
definition markerEOI :: byte where "markerEOI = 0xD9"
definition markerDQT :: byte where "markerDQT = 0xDB"
definition markerDRI :: byte where "markerDRI = 0xDD"
definition markerAPP0 :: byte where "markerAPP0 = 0xE0"
definition markerAPP1 :: byte where "markerAPP1 = 0xE1"
definition markerAPP2 :: byte where "markerAPP2 = 0xE2"
definition markerAPP7 :: byte where "markerAPP7 = 0xE7"
definition markerAPP8 :: byte where "markerAPP8 = 0xE8"
definition markerAPP9 :: byte where "markerAPP9 = 0xE9"
definition markerAPP10 :: byte where "markerAPP10 = 0xEA"
definition markerAPP13 :: byte where "markerAPP13 = 0xED"
definition markerAPP14 :: byte where "markerAPP14 = 0xEE"

lemmas marker_defs =
  markerFirstByte_def markerSOF0_def markerSOF1_def markerSOF2_def markerSOF3_def
  markerSOF5_def markerSOF6_def markerSOF7_def markerSOF9_def markerSOF10_def
  markerDHT_def markerSOI_def markerEOI_def markerDQT_def markerDRI_def
  markerAPP0_def markerAPP1_def markerAPP2_def markerAPP7_def markerAPP8_def
  markerAPP9_def markerAPP10_def markerAPP13_def markerAPP14_def

text \<open>The bytes of a Go string constant.\<close>

definition bytesOf :: "string \<Rightarrow> byte list" where
  "bytesOf s = map (\<lambda>c. of_nat (of_char c)) s"

definition exifPrefix :: "byte list" where "exifPrefix = bytesOf ''Exif'' @ [0, 0]"
definition jfifPrefix :: "byte list" where "jfifPrefix = bytesOf ''JFIF'' @ [0]"
definition jfifPrefixExt :: "byte list" where "jfifPrefixExt = bytesOf ''JFXX'' @ [0]"
definition iccPrefix :: "byte list" where "iccPrefix = bytesOf ''ICC_PROFILE''"
definition xmpPrefix :: "byte list" where
  "xmpPrefix = bytesOf ''http://ns.adobe.com/xap/1.0/'' @ [0]"
definition xmpPrefixExt :: "byte list" where
  "xmpPrefixExt = bytesOf ''http://ns.adobe.com/xmp/extension/''"
definition photoshopPrefix :: "byte list" where "photoshopPrefix = bytesOf ''Photoshop ''"
definition exifPrefixLength :: int where "exifPrefixLength = 8"
definition xmpPrefixLength :: int where "xmpPrefixLength = 29"

subsection \<open>Byte order and slices\<close>

text \<open>\<open>binary.BigEndian.Uint16\<close> on a slice of two bytes (\<open>jpegEndian\<close> is big endian).\<close>

definition jpegEndianUint16 :: "byte list \<Rightarrow> 16 word" where
  "jpegEndianUint16 b = or (push_bit 8 (ucast (b ! 0))) (ucast (b ! 1))"

text \<open>
  \<open>byteOrder.Uint32\<close> on a slice of four bytes.  On a nil \<open>binary.ByteOrder\<close> the method
  call is a nil dereference: \<open>None\<close>.
\<close>

definition orderUint32 :: "ByteOrder \<Rightarrow> byte list \<Rightarrow> 32 word option" where
  "orderUint32 bo b =
     (case bo of
        BigEndian \<Rightarrow>
          Some (or (push_bit 24 (ucast (b ! 0)))
                 (or (push_bit 16 (ucast (b ! 1)))
                    (or (push_bit 8 (ucast (b ! 2))) (ucast (b ! 3)))))
      | LittleEndian \<Rightarrow>
          Some (or (ucast (b ! 0))
                 (or (push_bit 8 (ucast (b ! 1)))
                    (or (push_bit 16 (ucast (b ! 2))) (push_bit 24 (ucast (b ! 3))))))
      | UnknownEndian \<Rightarrow> None)"

text \<open>
  The slice expression \<open>buf[lo:hi]\<close> inside the length of \<open>buf\<close>.  Every window the
  functions below receive comes from a successful \<open>peek\<close> of 16 (of 8 in \<open>readExif\<close>), and
  these bounds stay inside it.
\<close>

definition sub :: "slice \<Rightarrow> nat \<Rightarrow> nat \<Rightarrow> byte list" where
  "sub buf lo hi = take (hi - lo) (drop lo (elems buf))"

text \<open>
  The slice expression \<open>buf[lo:hi]\<close> where \<open>hi\<close> may pass the length: Go allows it up to the
  capacity and panics with a runtime error beyond (\<open>None\<close>).
\<close>

definition subCap :: "slice \<Rightarrow> nat \<Rightarrow> nat \<Rightarrow> byte list option" where
  "subCap buf lo hi =
     (if lo \<le> hi \<and> hi \<le> length (elems buf) + length (beyond buf)
      then Some (take (hi - lo) (drop lo (elems buf @ beyond buf)))
      else None)"

subsection \<open>Marker classification\<close>

definition markerLength :: "slice \<Rightarrow> int" where
  "markerLength buf = uint (jpegEndianUint16 (sub buf 2 4))"

definition isSOIMarker :: "slice \<Rightarrow> bool" where
  "isSOIMarker buf = (elems buf ! 0 = markerFirstByte \<and> elems buf ! 1 = markerSOI)"

definition isMarkerFirstByte :: "slice \<Rightarrow> bool" where
  "isMarkerFirstByte buf = (elems buf ! 0 = markerFirstByte)"

definition isPhotoshopPrefix :: "slice \<Rightarrow> bool" where
  "isPhotoshopPrefix buf = (sub buf 4 14 = photoshopPrefix)"

definition isICCProfilePrefix :: "slice \<Rightarrow> bool" where
  "isICCProfilePrefix buf = (sub buf 4 15 = iccPrefix)"

definition isXMPPrefix :: "slice \<Rightarrow> bool option" where
  "isXMPPrefix buf = map_option (\<lambda>s. s = xmpPrefix) (subCap buf 4 33)"

definition isXMPPrefixExt :: "slice \<Rightarrow> bool option" where
  "isXMPPrefixExt buf = map_option (\<lambda>s. s = xmpPrefixExt) (subCap buf 4 38)"

definition isExifPrefix :: "slice \<Rightarrow> bool" where
  "isExifPrefix buf = (sub buf 4 10 = exifPrefix)"

definition isJFIFPrefix :: "slice \<Rightarrow> bool" where
  "isJFIFPrefix buf = (sub buf 4 9 = jfifPrefix)"

definition isJFIFPrefixExt :: "slice \<Rightarrow> bool" where
  "isJFIFPrefixExt buf = (sub buf 4 9 = jfifPrefixExt)"

definition jfifHeader :: "slice \<Rightarrow> int" where
  "jfifHeader buf = (if isJFIFPrefix buf then markerLength buf else 0)"

subsection \<open>Reader methods\<close>

definition peek :: "nat \<Rightarrow> jpegReader \<Rightarrow> slice \<times> error option" where
  "peek n jr = Peek n (br jr)"

definition discard :: "int \<Rightarrow> jpegReader \<Rightarrow> error option \<times> jpegReader" where
  "discard i jr =
     (if i = 0 then (None, jr)
      else
        let ((n, err), rd) = Discard i (br jr)
        in (err, jr\<lparr>br := rd, discarded := discarded jr + of_nat n\<rparr>))"

definition ignoreMarker :: "slice \<Rightarrow> jpegReader \<Rightarrow> error option \<times> jpegReader" where
  "ignoreMarker buf jr = discard (markerLength buf + 2) jr"

definition readSOF :: "slice \<Rightarrow> jpegReader \<Rightarrow> error option \<times> jpegReader" where
  "readSOF buf jr =
     (let len = markerLength buf;
          h = jpegEndianUint16 (sub buf 5 7);
          w = jpegEndianUint16 (sub buf 7 9);
          comp = elems buf ! 9;
          header = \<lparr>height = h, width = w, components = comp\<rparr>;
          jr1 = (if pos jr = 1 then jr\<lparr>sof := header\<rparr> else jr);
          jr2 = jr1\<lparr>trace := trace jr1 @ [SOFRead (pos jr) header]\<rparr>
      in discard (len + 2) jr2)"

text \<open>
  \<open>readXMP\<close>.  The callback reads through a \<open>LimitedReader\<close>, so it takes at most what that
  reader holds; what it took is missing from the reader afterwards and is not added to
  \<open>discarded\<close>.  \<open>remain - int c\<close> is the \<open>N\<close> the \<open>LimitedReader\<close> is left with.
\<close>

definition readXMP :: "slice \<Rightarrow> jpegReader \<Rightarrow> outcome \<times> jpegReader" where
  "readXMP buf jr =
     (let remain = markerLength buf - 2 - xmpPrefixLength
      in case discard (4 + xmpPrefixLength) jr of
           (Some e, jr1) \<Rightarrow> (Done (Some e), jr1)
         | (None, jr1) \<Rightarrow>
             (case XMPReader jr1 of
                None \<Rightarrow> (let (err, jr2) = discard remain jr1 in (Done err, jr2))
              | Some cb \<Rightarrow>
                  (let r = LimitReader (br jr1) remain;
                       (n, out) = cb r;
                       c = min n (length (pending r));
                       jr2 = jr1\<lparr>br := (br jr1)\<lparr>pending := drop c (pending (br jr1))\<rparr>,
                                 trace := trace jr1 @ [XMPCall (pending r)]\<rparr>
                   in case out of
                        Panicked pv \<Rightarrow> (Panicked pv, jr2)
                      | Done (Some e) \<Rightarrow> (Done (Some e), jr2)
                      | Done None \<Rightarrow>
                          (let (err, jr3) = discard (remain - int c) jr2
                           in (Done err, jr3)))))"

text \<open>
  \<open>readExif\<close>.  The callback is handed the buffered reader itself; after a callback that
  returns nil, \<open>remain\<close> is set to 0, so the final \<open>discard\<close> is \<open>discard 0\<close>.
\<close>

definition readExif :: "jpegEnv \<Rightarrow> slice \<Rightarrow> jpegReader \<Rightarrow> outcome \<times> jpegReader" where
  "readExif env buf jr =
     (let remain = markerLength buf - exifPrefixLength
      in case discard (2 + exifPrefixLength) jr of
           (Some e, jr1) \<Rightarrow> (Done (Some e), jr1)
         | (None, jr1) \<Rightarrow>
             (case peek (nat exifPrefixLength) jr1 of
                (buf1, Some e) \<Rightarrow> (Done (Some e), jr1)
              | (buf1, None) \<Rightarrow>
                  (case ExifReader jr1 of
                     None \<Rightarrow> (let (err, jr2) = discard remain jr1 in (Done err, jr2))
                   | Some cb \<Rightarrow>
                       (let byteOrder = BinaryOrder env (elems buf1)
                        in case orderUint32 byteOrder (sub buf1 4 8) of
                             None \<Rightarrow> (Panicked (PanicError ErrRuntime), jr1)
                           | Some firstIfdOffset \<Rightarrow>
                               (let exifLength = word_of_int remain;
                                    exifHeader = NewExifHeader env byteOrder firstIfdOffset
                                                   (discarded jr1) exifLength ImageJPEG;
                                    (n, out) = cb exifHeader (br jr1);
                                    jr2 = jr1\<lparr>br := (br jr1)\<lparr>pending := drop n (pending (br jr1))\<rparr>,
                                              trace := trace jr1 @
                                                [ExifCall exifHeader (pending (br jr1))]\<rparr>
                                in case out of
                                     Panicked pv \<Rightarrow> (Panicked pv, jr2)
                                   | Done (Some e) \<Rightarrow> (Done (Some e), jr2)
                                   | Done None \<Rightarrow>
                                       (let (err, jr3) = discard 0 jr2
                                        in (Done err, jr3)))))))"

definition readAPP1 :: "jpegEnv \<Rightarrow> slice \<Rightarrow> jpegReader \<Rightarrow> outcome \<times> jpegReader" where
  "readAPP1 env buf jr =
     (if isExifPrefix buf then readExif env buf jr
      else
        case isXMPPrefix buf of
          None \<Rightarrow> (Panicked (PanicError ErrRuntime), jr)
        | Some True \<Rightarrow> readXMP buf jr
        | Some False \<Rightarrow>
            (case isXMPPrefixExt buf of
               None \<Rightarrow> (Panicked (PanicError ErrRuntime), jr)
             | Some True \<Rightarrow> (let (err, jr1) = ignoreMarker buf jr in (Done err, jr1))
             | Some False \<Rightarrow> (let (err, jr1) = ignoreMarker buf jr in (Done err, jr1))))"

subsection \<open>The scan loop\<close>

text \<open>
  The calls of \<open>logInfo\<close> and \<open>logInfoMarker\<close> only write a trace line and are left
  out.  \<open>newJPEGReader\<close> wraps the stream in a \<open>bufio.Reader\<close> of at least 4096 bytes
  (or keeps the caller's larger one); the model starts from the buffered reader.

  One pass through the body of the \<open>for\<close> loop of \<open>ScanJPEG\<close> ends in \<open>continue\<close>, in a
  return, or in a panic.  A \<open>case\<close> of the \<open>switch\<close> that only assigns \<open>err\<close> falls through
  to \<open>if err != nil { return err }\<close> and then to \<open>break\<close> and the bare \<open>return\<close>: the
  function returns \<open>err\<close> whether it is nil or not, which is \<open>fallThrough\<close>.
\<close>

datatype step = Continue jpegReader | Return "error option" jpegReader | Panic panicval jpegReader

definition fallThrough :: "error option \<times> jpegReader \<Rightarrow> step" where
  "fallThrough r = Return (fst r) (snd r)"

definition returns :: "error option \<times> jpegReader \<Rightarrow> step" where
  "returns r = Return (fst r) (snd r)"

definition continue :: "error option \<times> jpegReader \<Rightarrow> step" where
  "continue r = Continue (snd r)"

definition isSOFMarker :: "byte \<Rightarrow> bool" where
  "isSOFMarker m =
     (m = markerSOF0 \<or> m = markerSOF1 \<or> m = markerSOF2 \<or> m = markerSOF3 \<or> m = markerSOF5
      \<or> m = markerSOF6 \<or> m = markerSOF7 \<or> m = markerSOF9 \<or> m = markerSOF10)"

text \<open>The \<open>switch buf[1]\<close> of \<open>ScanJPEG\<close>, entered when the nesting counter is above 0.\<close>

definition scanSwitch :: "jpegEnv \<Rightarrow> slice \<Rightarrow> jpegReader \<Rightarrow> step" where
  "scanSwitch env buf jr =
     (let m = elems buf ! 1
      in if isSOFMarker m then fallThrough (readSOF buf jr)
         else if m = markerDHT then
           (if pos jr = 1 then Return (Some ErrEndOfImage) jr
            else fallThrough (ignoreMarker buf jr))
         else if m = markerSOI then fallThrough (discard 2 (jr\<lparr>pos := pos jr + 1\<rparr>))
         else if m = markerEOI then
           (let jr1 = jr\<lparr>pos := pos jr - 1\<rparr>
            in if pos jr1 = 1 then Return (Some ErrEndOfImage) jr1
               else fallThrough (discard 2 jr1))
         else if m = markerDQT then continue (ignoreMarker buf jr)
         else if m = markerDRI then returns (discard 6 jr)
         else if m = markerAPP0 then
           (if isJFIFPrefix buf \<or> isJFIFPrefixExt buf
            then continue (discard (jfifHeader buf + 2) jr)
            else continue (ignoreMarker buf jr))
         else if m = markerAPP1 then
           (case readAPP1 env buf jr of
              (Done err, jr1) \<Rightarrow> Continue jr1
            | (Panicked pv, jr1) \<Rightarrow> Panic pv jr1)
         else if m = markerAPP2 then
           (if isICCProfilePrefix buf then continue (ignoreMarker buf jr)
            else continue (ignoreMarker buf jr))
         else if m = markerAPP7 \<or> m = markerAPP8 \<or> m = markerAPP9 \<or> m = markerAPP10 then
           returns (ignoreMarker buf jr)
         else if m = markerAPP13 then
           (if isPhotoshopPrefix buf then continue (ignoreMarker buf jr)
            else continue (ignoreMarker buf jr))
         else if m = markerAPP14 then returns (ignoreMarker buf jr)
         else Return None jr)"

text \<open>The body of the loop.  A failed \<open>peek\<close> is replaced by \<open>ErrNoJPEGMarker\<close>.\<close>

definition scanStep :: "jpegEnv \<Rightarrow> jpegReader \<Rightarrow> step" where
  "scanStep env jr =
     (case peek 16 jr of
        (buf, Some e) \<Rightarrow> Return (Some ErrNoJPEGMarker) jr
      | (buf, None) \<Rightarrow>
          if \<not> isMarkerFirstByte buf then continue (discard 1 jr)
          else if isSOIMarker buf then continue (discard 2 (jr\<lparr>pos := pos jr + 1\<rparr>))
          else if pos jr > 0 then scanSwitch env buf jr
          else Return None jr)"

subsection \<open>Example inputs for the scanner\<close>

text \<open>
  A stream shorter than bufio's buffer of 4096 bytes that the first fill reads whole: the
  array holds the stream and zeros after it, so past a window it shows the rest of the
  pending bytes and then the zeros.
\<close>

definition streamReader :: "byte list \<Rightarrow> error \<Rightarrow> bufReader" where
  "streamReader bs e =
     \<lparr>pending = bs, rerr = e,
      spare = (\<lambda>p. drop 16 p @ replicate (4096 - length bs) 0)\<rparr>"

text \<open>
  Modelled from the spec: the byte-order mark of a TIFF block is \<open>II\<close> for little endian
  and \<open>MM\<close> for big endian; the header stores the five arguments it is built from.
\<close>

definition exampleBinaryOrder :: "byte list \<Rightarrow> ByteOrder" where
  "exampleBinaryOrder b =
     (if take 2 b = [0x49, 0x49] then LittleEndian
      else if take 2 b = [0x4D, 0x4D] then BigEndian
      else UnknownEndian)"

definition exampleNewExifHeader ::
  "ByteOrder \<Rightarrow> 32 word \<Rightarrow> 32 word \<Rightarrow> 32 word \<Rightarrow> ImageType \<Rightarrow> ExifHeader" where
  "exampleNewExifHeader bo off origin len it =
     \<lparr>ByteOrder = bo, FirstIfdOffset = off, TiffHeaderOffset = origin, ExifLength = len,
      ImageType = it, FirstIfd = NullIFD\<rparr>"

definition exampleJpegEnv :: jpegEnv where
  "exampleJpegEnv =
     \<lparr>BinaryOrder = exampleBinaryOrder, NewExifHeader = exampleNewExifHeader\<rparr>"

text \<open>Callbacks: one that reads nothing, one that reads 8 bytes, one that panics.\<close>

definition exifReadsNothing :: exifCallback where
  "exifReadsNothing h r = (0, Done None)"

definition exifReadsHeader :: exifCallback where
  "exifReadsHeader h r = (8, Done None)"


definition xmpReadsNothing :: xmpCallback where
  "xmpReadsNothing r = (0, Done None)"

text \<open>Segments of a baseline JPEG file.\<close>

definition segSOI :: "byte list" where
  "segSOI = [0xFF, 0xD8]"

definition segEOI :: "byte list" where
  "segEOI = [0xFF, 0xD9]"

text \<open>A quantization table: length 67, table 0 with 64 entries.\<close>

definition segDQT :: "byte list" where
  "segDQT = [0xFF, 0xDB, 0x00, 0x43, 0x00] @ replicate 64 0x10"

text \<open>A baseline frame header: length 17, 8 bits, 480 by 640, three components.\<close>

definition segSOF0 :: "byte list" where
  "segSOF0 =
     [0xFF, 0xC0, 0x00, 0x11, 0x08, 0x01, 0xE0, 0x02, 0x80, 0x03,
      0x01, 0x22, 0x00, 0x02, 0x11, 0x01, 0x03, 0x11, 0x01]"

text \<open>A Huffman table: length 31, one DC table with 12 symbols.\<close>

definition segDHT :: "byte list" where
  "segDHT =
     [0xFF, 0xC4, 0x00, 0x1F, 0x00,
      0x00, 0x01, 0x05, 0x01, 0x01, 0x01, 0x01, 0x01, 0x01, 0x00, 0x00, 0x00, 0x00, 0x00,
      0x00, 0x00,
      0x00, 0x01, 0x02, 0x03, 0x04, 0x05, 0x06, 0x07, 0x08, 0x09, 0x0A, 0x0B]"

text \<open>A scan header for three components, followed by four bytes of entropy-coded data.\<close>

definition segSOS :: "byte list" where
  "segSOS =
     [0xFF, 0xDA, 0x00, 0x0C, 0x03, 0x01, 0x00, 0x02, 0x11, 0x03, 0x11, 0x00, 0x3F, 0x00,
      0xF7, 0x9A, 0x28, 0xA0]"

text \<open>An Adobe APP14 segment: length 14.\<close>

definition segAPP14 :: "byte list" where
  "segAPP14 =
     [0xFF, 0xEE, 0x00, 0x0E, 0x41, 0x64, 0x6F, 0x62, 0x65, 0x00, 0x64, 0x00, 0x00, 0x00,
      0x00, 0x01]"

text \<open>
  An Exif APP1 segment: length 34, the prefix \<open>Exif\<close> and two NULs, then a little-endian
  TIFF block of 26 bytes whose first directory is at offset 8 and holds one entry
  (Orientation, short, count 1, value 1) and the next-directory offset 0.
\<close>

definition segExif :: "byte list" where
  "segExif =
     [0xFF, 0xE1, 0x00, 0x22, 0x45, 0x78, 0x69, 0x66, 0x00, 0x00,
      0x49, 0x49, 0x2A, 0x00, 0x08, 0x00, 0x00, 0x00,
      0x01, 0x00,
      0x12, 0x01, 0x03, 0x00, 0x01, 0x00, 0x00, 0x00, 0x01, 0x00, 0x00, 0x00,
      0x00, 0x00, 0x00, 0x00]"

text \<open>
  The state in which the scanner has discarded \<open>n\<close> more bytes; used to state results.
\<close>

definition advance :: "nat \<Rightarrow> jpegReader \<Rightarrow> jpegReader" where
  "advance n jr =
     jr\<lparr>br := (br jr)\<lparr>pending := drop n (pending (br jr))\<rparr>,
        discarded := discarded jr + of_nat n\<rparr>"


text \<open>The declared length of the segment whose marker is at the front of \<open>p\<close>.\<close>

definition declared :: "byte list \<Rightarrow> int" where
  "declared p = uint (jpegEndianUint16 (take 2 (drop 2 p)))"

text \<open>
  States of the scanner inside the baseline file SOI, DQT, SOF0, DHT, SOS, EOI: at the DHT
  marker, 90 bytes in, with the nesting counter at 1; and the same with the stream cut off
  8 bytes after the marker's start.
\<close>

definition atDHT :: jpegReader where
  "atDHT =
     (newJPEGReader (streamReader (segDHT @ segSOS @ segEOI) EOF) None None)
       \<lparr>pos := 1, discarded := 90\<rparr>"

definition atShortDHT :: jpegReader where
  "atShortDHT =
     (newJPEGReader (streamReader (take 8 segDHT) (ErrIO 5)) None None)
       \<lparr>pos := 1, discarded := 90\<rparr>"

text \<open>At a baseline frame header that declares 17 bytes, of which the stream holds 15.\<close>

definition atShortSOF :: jpegReader where
  "atShortSOF =
     (newJPEGReader (streamReader (take 17 segSOF0) (ErrIO 5)) None None)
       \<lparr>pos := 1, discarded := 71\<rparr>"

text \<open>
  The state after SOI in the file SOI, Exif, DQT, SOF0, DHT, SOS, EOI: at the Exif marker,
  2 bytes in, nesting counter 1, with a given Exif callback.
\<close>

definition afterExif :: "byte list" where
  "afterExif = segDQT @ segSOF0 @ segDHT @ segSOS @ segEOI"

definition atExif :: "exifCallback option \<Rightarrow> jpegReader" where
  "atExif cb =
     (newJPEGReader (streamReader (segExif @ afterExif) EOF) cb None)
       \<lparr>pos := 1, discarded := 2\<rparr>"

subsection \<open>Reading the trace\<close>

text \<open>The frame headers that \<open>readSOF\<close> decoded, each with the nesting counter it saw.\<close>

fun sofReads :: "event list \<Rightarrow> (8 word \<times> sofHeader) list" where
  "sofReads [] = []"
| "sofReads (SOFRead p h # es) = (p, h) # sofReads es"
| "sofReads (ExifCall h bs # es) = sofReads es"
| "sofReads (XMPCall bs # es) = sofReads es"


text \<open>The calls of the callbacks in a trace.\<close>

fun callbackCalls :: "event list \<Rightarrow> event list" where
  "callbackCalls [] = []"
| "callbackCalls (SOFRead p h # es) = callbackCalls es"
| "callbackCalls (e # es) = e # callbackCalls es"

text \<open>
  \<open>keeps jr jr1\<close>: from \<open>jr\<close> to \<open>jr1\<close> the callbacks, the stream's error, the frame record
  and the array behind the windows are the same, and the events added to the trace are
  calls of callbacks only.
\<close>

definition keeps :: "jpegReader \<Rightarrow> jpegReader \<Rightarrow> bool" where
  "keeps jr jr1 \<longleftrightarrow>
     ExifReader jr1 = ExifReader jr \<and> XMPReader jr1 = XMPReader jr
     \<and> rerr (br jr1) = rerr (br jr) \<and> spare (br jr1) = spare (br jr)
     \<and> sof jr1 = sof jr
     \<and> (\<exists>evs. trace jr1 = trace jr @ evs \<and> sofReads evs = [])"

text \<open>
  \<open>framed jr h jr1\<close>: the same, except that one \<open>readSOF\<close> event for the header \<open>h\<close> was
  added and the frame record is \<open>h\<close> if the nesting counter of \<open>jr\<close> is 1.
\<close>

definition framed :: "jpegReader \<Rightarrow> sofHeader \<Rightarrow> jpegReader \<Rightarrow> bool" where
  "framed jr h jr1 \<longleftrightarrow>
     ExifReader jr1 = ExifReader jr \<and> XMPReader jr1 = XMPReader jr
     \<and> rerr (br jr1) = rerr (br jr) \<and> spare (br jr1) = spare (br jr)
     \<and> sof jr1 = (if pos jr = 1 then h else sof jr)
     \<and> trace jr1 = trace jr @ [SOFRead (pos jr) h]"

text \<open>The frame header that \<open>readSOF\<close> decodes from the segment at the front of \<open>p\<close>.\<close>

definition frameOf :: "byte list \<Rightarrow> sofHeader" where
  "frameOf p =
     \<lparr>height = jpegEndianUint16 (take 2 (drop 5 p)),
      width = jpegEndianUint16 (take 2 (drop 7 p)),
      components = p ! 9\<rparr>"


definition baseline :: "byte list" where
  "baseline = segSOI @ segDQT @ segSOF0 @ segDHT @ segSOS @ segEOI"



text \<open>
  \<open>continuesAfter s\<close>: \<open>s\<close> is a whole segment (marker, length field, payload of the
  declared length) of a kind after which the loop goes on: a quantization table, an APP2 or
  APP13 segment, or an APP0 segment other than a JFXX extension.
\<close>

definition continuesAfter :: "byte list \<Rightarrow> bool" where
  "continuesAfter s \<longleftrightarrow>
     4 \<le> length s \<and> s ! 0 = markerFirstByte \<and> int (length s) = declared s + 2
     \<and> (s ! 1 = markerDQT \<or> s ! 1 = markerAPP2 \<or> s ! 1 = markerAPP13
         \<or> (s ! 1 = markerAPP0 \<and> 9 \<le> length s \<and> take 5 (drop 4 s) \<noteq> jfifPrefixExt))"

text \<open>
  \<open>endsScan m\<close>: the marker of a segment that the scanner discards and then returns: a
  restart interval, APP7 to APP10, or APP14.
\<close>

definition endsScan :: "byte \<Rightarrow> bool" where
  "endsScan m \<longleftrightarrow>
     m = markerDRI \<or> m = markerAPP7 \<or> m = markerAPP8 \<or> m = markerAPP9 \<or> m = markerAPP10
     \<or> m = markerAPP14"

text \<open>
  After SOI in the file SOI, DQT, Exif, DQT, SOF0, DHT, SOS, EOI, and after SOI in the file
  SOI, APP14, Exif, DQT, SOF0, DHT, SOS, EOI; the Exif callback reads the TIFF header.
\<close>

definition atDQTExif :: jpegReader where
  "atDQTExif =
     (newJPEGReader (streamReader (segDQT @ segExif @ afterExif) EOF)
        (Some exifReadsHeader) None)
       \<lparr>pos := 1, discarded := 2\<rparr>"

definition atAPP14Exif :: jpegReader where
  "atAPP14Exif =
     (newJPEGReader (streamReader (segAPP14 @ segExif @ afterExif) EOF)
        (Some exifReadsHeader) None)
       \<lparr>pos := 1, discarded := 2\<rparr>"

subsection \<open>Every \<open>continue\<close> consumes input\<close>

lemma discard_pending:
  "pending (br (snd (discard i jr))) = drop (nat i) (pending (br jr))"
  by (auto simp: discard_def Discard_def Let_def min_def split: prod.splits)

lemma discard_length:
  "length (pending (br (snd (discard i jr)))) = length (pending (br jr)) - nat i"
  by (simp add: discard_pending)

lemma discard_length_le:
  "discard i jr = (e, jr1) \<Longrightarrow> length (pending (br jr1)) \<le> length (pending (br jr))"
  using discard_length [of i jr] by simp

lemma markerLength_range: "0 \<le> markerLength buf" "markerLength buf < 65536"
  using uint_lt2p [of "jpegEndianUint16 (sub buf 2 4)"]
  by (simp_all add: markerLength_def)

lemma ignoreMarker_length:
  "length (pending (br (snd (ignoreMarker buf jr)))) \<le> length (pending (br jr)) - 2"
  using markerLength_range(1) [of buf]
  by (simp add: ignoreMarker_def discard_length)

lemma readXMP_length:
  "length (pending (br (snd (readXMP buf jr)))) \<le> length (pending (br jr)) - 33"
proof -
  obtain e jr1 where d: "discard (4 + xmpPrefixLength) jr = (e, jr1)"
    by (cases "discard (4 + xmpPrefixLength) jr")
  have l1: "length (pending (br jr1)) = length (pending (br jr)) - 33"
    using discard_length [of "4 + xmpPrefixLength" jr] d
    by (simp add: xmpPrefixLength_def)
  show ?thesis
    using l1 d
    by (auto simp: readXMP_def Let_def
        dest!: discard_length_le
        split: option.splits prod.splits outcome.splits)
qed

lemma readExif_length:
  "length (pending (br (snd (readExif env buf jr)))) \<le> length (pending (br jr)) - 10"
proof -
  obtain e jr1 where d: "discard (2 + exifPrefixLength) jr = (e, jr1)"
    by (cases "discard (2 + exifPrefixLength) jr")
  have l1: "length (pending (br jr1)) = length (pending (br jr)) - 10"
    using discard_length [of "2 + exifPrefixLength" jr] d
    by (simp add: exifPrefixLength_def)
  show ?thesis
    using l1 d
    by (auto simp: readExif_def Let_def
        dest!: discard_length_le
        split: option.splits prod.splits outcome.splits)
qed

lemma readAPP1_length:
  "readAPP1 env buf jr = (Done err, jr1) \<Longrightarrow>
   length (pending (br jr1)) \<le> length (pending (br jr)) - 2"
  using readExif_length [of env buf jr] readXMP_length [of buf jr] ignoreMarker_length [of buf jr]
  by (auto simp: readAPP1_def split: if_splits option.splits bool.splits prod.splits)

lemma scanSwitch_Continue:
  "scanSwitch env buf jr = Continue jr1 \<Longrightarrow>
   length (pending (br jr1)) \<le> length (pending (br jr)) - 2"
  using ignoreMarker_length [of buf jr] markerLength_range(1) [of buf]
  by (auto simp: scanSwitch_def Let_def fallThrough_def returns_def continue_def
        jfifHeader_def discard_length
      dest: readAPP1_length
      split: if_splits prod.splits outcome.splits)

lemma scanStep_Continue:
  assumes "scanStep env jr = Continue jr1"
  shows "length (pending (br jr1)) < length (pending (br jr))"
proof -
  have avail: "16 \<le> length (pending (br jr))"
    using assms
    by (auto simp: scanStep_def peek_def Peek_def split: if_splits)
  show ?thesis
    using assms avail
    by (auto simp: scanStep_def peek_def Peek_def continue_def discard_length
        dest!: scanSwitch_Continue split: if_splits)
qed

text \<open>
  The \<open>for\<close> loop of \<open>ScanJPEG\<close>.  It returns how the loop ends and the final state of the
  reader.
\<close>

function ScanLoop :: "jpegEnv \<Rightarrow> jpegReader \<Rightarrow> outcome \<times> jpegReader" where
  "ScanLoop env jr =
     (case scanStep env jr of
        Continue jr1 \<Rightarrow> ScanLoop env jr1
      | Return err jr1 \<Rightarrow> (Done err, jr1)
      | Panic pv jr1 \<Rightarrow> (Panicked pv, jr1))"
  by pat_completeness auto
termination
  by (relation "measure (\<lambda>(env, jr). length (pending (br jr)))")
     (auto dest: scanStep_Continue)

declare ScanLoop.simps [simp del]

text \<open>
  What the caller of \<open>ScanJPEG\<close> gets: a returned error value (\<open>None\<close> is nil), or a panic
  that leaves the function.
\<close>

datatype scanResult = Returned "error option" | Escaped panicval

text \<open>
  \<open>ScanJPEG\<close> with its deferred handler: \<open>recover()\<close> stops a panic and \<open>err = state.(error)\<close>
  makes its value the result; for a value that is not an \<open>error\<close> the type assertion itself
  panics with a runtime error, which leaves the function.  The model also returns the final
  state of the private reader.
\<close>

definition ScanJPEG ::
  "jpegEnv \<Rightarrow> bufReader \<Rightarrow> exifCallback option \<Rightarrow> xmpCallback option
   \<Rightarrow> scanResult \<times> jpegReader" where
  "ScanJPEG env r exifReader xmpReader =
     (case ScanLoop env (newJPEGReader r exifReader xmpReader) of
        (Done err, jr) \<Rightarrow> (Returned err, jr)
      | (Panicked (PanicError e), jr) \<Rightarrow> (Returned (Some e), jr)
      | (Panicked (PanicValue v), jr) \<Rightarrow> (Escaped (PanicError ErrRuntime), jr))"

section \<open>Properties of the scanner\<close>

subsection \<open>Discarding\<close>

lemma discard_ok:
  assumes "0 < i" and "nat i \<le> length (pending (br jr))"
  shows "discard i jr = (None, advance (nat i) jr)"
  using assms by (simp add: discard_def Discard_def advance_def Let_def min_def)

lemma discard_short:
  assumes "length (pending (br jr)) < nat i"
  shows "discard i jr = (Some (rerr (br jr)), advance (length (pending (br jr))) jr)"
  using assms by (auto simp: discard_def Discard_def advance_def Let_def min_def)

lemma window_bytes:
  assumes "take 2 (pending (br jr)) = [a, b]" and "16 \<le> length (pending (br jr))"
  shows "peek 16 jr = (\<lparr>elems = take 16 (pending (br jr)),
                         beyond = spare (br jr) (pending (br jr))\<rparr>, None)"
    and "take 16 (pending (br jr)) ! 0 = a"
    and "take 16 (pending (br jr)) ! Suc 0 = b"
proof -
  show "peek 16 jr = (\<lparr>elems = take 16 (pending (br jr)),
                         beyond = spare (br jr) (pending (br jr))\<rparr>, None)"
    using assms(2) by (simp add: peek_def Peek_def)
  have "take 2 (pending (br jr)) ! 0 = a" "take 2 (pending (br jr)) ! 1 = b"
    using assms(1) by simp_all
  then show "take 16 (pending (br jr)) ! 0 = a" "take 16 (pending (br jr)) ! Suc 0 = b"
    by simp_all
qed

lemma scanStep_short:
  assumes "length (pending (br jr)) < 16"
  shows "scanStep env jr = Return (Some ErrNoJPEGMarker) jr"
  using assms by (simp add: scanStep_def peek_def Peek_def)

lemma markerLength_window:
  assumes "16 \<le> length p"
  shows "markerLength \<lparr>elems = take 16 p, beyond = s\<rparr> = declared p"
proof -
  have "take 2 (drop 2 (take 16 p)) = take 2 (drop 2 p)"
    by (simp add: drop_take)
  then show ?thesis
    by (simp add: markerLength_def declared_def sub_def)
qed

lemma advance_advance: "advance a (advance b jr) = advance (a + b) jr"
  by (simp add: advance_def add.commute add.left_commute)

lemma advance_fields:
  "pending (br (advance n jr)) = drop n (pending (br jr))"
  "rerr (br (advance n jr)) = rerr (br jr)"
  "spare (br (advance n jr)) = spare (br jr)"
  "discarded (advance n jr) = discarded jr + of_nat n"
  "pos (advance n jr) = pos jr"
  "sof (advance n jr) = sof jr"
  "trace (advance n jr) = trace jr"
  "ExifReader (advance n jr) = ExifReader jr"
  "XMPReader (advance n jr) = XMPReader jr"
  by (simp_all add: advance_def)

subsection \<open>What a step leaves unchanged\<close>

lemma sofReads_append: "sofReads (xs @ ys) = sofReads xs @ sofReads ys"
  by (induction xs rule: sofReads.induct) simp_all

lemma keeps_refl: "keeps jr jr"
  by (simp add: keeps_def)

lemma keeps_trans: "keeps a b \<Longrightarrow> keeps b c \<Longrightarrow> keeps a c"
  by (auto simp: keeps_def sofReads_append)

lemma keeps_pos: "keeps jr (jr\<lparr>pos := p\<rparr>)"
  by (simp add: keeps_def)

lemma discard_keeps: "discard i jr = (e, jr1) \<Longrightarrow> keeps jr jr1"
  by (auto simp: discard_def Discard_def keeps_def Let_def split: if_splits)

lemma discard_keeps_snd: "keeps jr (snd (discard i jr))"
  using discard_keeps [of i jr] by (cases "discard i jr") simp

lemma discard_fields:
  "trace (snd (discard i jr)) = trace jr"
  "sof (snd (discard i jr)) = sof jr"
  "ExifReader (snd (discard i jr)) = ExifReader jr"
  "XMPReader (snd (discard i jr)) = XMPReader jr"
  "rerr (br (snd (discard i jr))) = rerr (br jr)"
  "spare (br (snd (discard i jr))) = spare (br jr)"
  by (auto simp: discard_def Discard_def Let_def split: prod.splits)

lemma discard_pos: "pos (snd (discard i jr)) = pos jr"
  by (auto simp: discard_def Discard_def Let_def split: prod.splits)

lemma ignoreMarker_keeps: "keeps jr (snd (ignoreMarker buf jr))"
  by (simp add: ignoreMarker_def discard_keeps_snd)

lemma readSOF_framed:
  "\<exists>h. framed jr h (snd (readSOF buf jr))"
proof -
  let ?h = "\<lparr>height = jpegEndianUint16 (sub buf 5 7), width = jpegEndianUint16 (sub buf 7 9),
             components = elems buf ! 9\<rparr>"
  let ?j = "(if pos jr = 1 then jr\<lparr>sof := ?h\<rparr> else jr)
              \<lparr>trace := trace (if pos jr = 1 then jr\<lparr>sof := ?h\<rparr> else jr)
                          @ [SOFRead (pos jr) ?h]\<rparr>"
  have "readSOF buf jr = discard (markerLength buf + 2) ?j"
    by (simp add: readSOF_def Let_def)
  then have "framed jr ?h (snd (readSOF buf jr))"
    by (simp add: framed_def discard_fields)
  then show ?thesis ..
qed

lemma keeps_event:
  "sofReads [ev] = [] \<Longrightarrow>
   keeps jr (jr\<lparr>br := (br jr)\<lparr>pending := bs\<rparr>, trace := trace jr @ [ev]\<rparr>)"
  by (simp add: keeps_def)

lemma readXMP_keeps: "keeps jr (snd (readXMP buf jr))"
proof -
  obtain e jr1 where d: "discard (4 + xmpPrefixLength) jr = (e, jr1)"
    by (cases "discard (4 + xmpPrefixLength) jr")
  have k1: "keeps jr jr1" using d by (rule discard_keeps)
  show ?thesis
  proof (cases e)
    case (Some a)
    then show ?thesis using d k1 by (simp add: readXMP_def Let_def)
  next
    case None
    note e = this
    show ?thesis
    proof (cases "XMPReader jr1")
      case None
      then show ?thesis
        using d e keeps_trans [OF k1 discard_keeps_snd]
        by (simp add: readXMP_def Let_def split_beta)
    next
      case (Some cb)
      let ?r = "LimitReader (br jr1) (markerLength buf - 2 - xmpPrefixLength)"
      obtain n out where c: "cb ?r = (n, out)" by (cases "cb ?r")
      let ?j2 = "jr1\<lparr>br := (br jr1)\<lparr>pending := drop (min n (length (pending ?r))) (pending (br jr1))\<rparr>,
                    trace := trace jr1 @ [XMPCall (pending ?r)]\<rparr>"
      have k2: "keeps jr ?j2"
        by (rule keeps_trans [OF k1 keeps_event]) simp
      have k3: "\<And>i. keeps jr (snd (discard i ?j2))"
        by (rule keeps_trans [OF k2 discard_keeps_snd])
      show ?thesis
        using d e Some c k2 k3
        by (simp add: readXMP_def Let_def split_beta split: outcome.splits option.splits)
    qed
  qed
qed


lemma readExif_keeps: "keeps jr (snd (readExif env buf jr))"
proof -
  obtain e jr1 where d: "discard (2 + exifPrefixLength) jr = (e, jr1)"
    by (cases "discard (2 + exifPrefixLength) jr")
  have k1: "keeps jr jr1" using d by (rule discard_keeps)
  have k2: "\<And>ev bs. sofReads [ev] = [] \<Longrightarrow>
      keeps jr (jr1\<lparr>br := (br jr1)\<lparr>pending := bs\<rparr>, trace := trace jr1 @ [ev]\<rparr>)"
    by (rule keeps_trans [OF k1 keeps_event])
  have k3: "\<And>i ev bs. sofReads [ev] = [] \<Longrightarrow>
      keeps jr (snd (discard i (jr1\<lparr>br := (br jr1)\<lparr>pending := bs\<rparr>,
                                    trace := trace jr1 @ [ev]\<rparr>)))"
    by (rule keeps_trans [OF k2 discard_keeps_snd])
  have k4: "\<And>i. keeps jr (snd (discard i jr1))"
    by (rule keeps_trans [OF k1 discard_keeps_snd])
  show ?thesis
    using d k1 k2 k3 k4
    by (simp add: readExif_def Let_def split_beta
        split: outcome.splits option.splits)
qed

lemma readAPP1_keeps: "keeps jr (snd (readAPP1 env buf jr))"
  using readExif_keeps [of jr env buf] readXMP_keeps [of jr buf] ignoreMarker_keeps [of jr buf]
  by (simp add: readAPP1_def keeps_refl split_beta Let_def split: option.splits bool.splits)

lemma discard_pos_keeps: "keeps jr (snd (discard i (jr\<lparr>pos := p\<rparr>)))"
  by (rule keeps_trans [OF keeps_pos discard_keeps_snd])

lemma readAPP1_keeps_eq: "readAPP1 env buf jr = (out, j) \<Longrightarrow> keeps jr j"
  using readAPP1_keeps [of jr env buf] by simp

lemma scanSwitch_frame:
  "case scanSwitch env buf jr of
     Continue j \<Rightarrow> keeps jr j
   | Panic pv j \<Rightarrow> keeps jr j
   | Return e j \<Rightarrow> keeps jr j \<or> (\<exists>h. framed jr h j)"
  using readSOF_framed [of jr buf] ignoreMarker_keeps [of jr buf]
  by (auto simp: scanSwitch_def Let_def fallThrough_def returns_def continue_def
        keeps_refl keeps_pos discard_keeps_snd discard_pos_keeps
      dest: readAPP1_keeps_eq
      split: prod.splits outcome.splits)

lemma scanStep_frame:
  "case scanStep env jr of
     Continue j \<Rightarrow> keeps jr j
   | Panic pv j \<Rightarrow> keeps jr j
   | Return e j \<Rightarrow> keeps jr j \<or> (\<exists>h. framed jr h j)"
  using scanSwitch_frame [where env=env and jr=jr]
  by (auto simp: scanStep_def continue_def keeps_refl discard_keeps_snd discard_pos_keeps
      split: prod.splits option.splits)

lemma ScanLoop_frame:
  "keeps jr (snd (ScanLoop env jr))
   \<or> (\<exists>jm h. keeps jr jm \<and> framed jm h (snd (ScanLoop env jr)))"
proof (induction env jr rule: ScanLoop.induct)
  case (1 env jr)
  show ?case
  proof (cases "scanStep env jr")
    case (Continue j)
    then have k: "keeps jr j" using scanStep_frame [where env=env and jr=jr] by simp
    have eq: "ScanLoop env jr = ScanLoop env j"
      using Continue by (subst ScanLoop.simps) simp
    from "1.IH" [OF Continue] show ?thesis
      unfolding eq using k by (blast intro: keeps_trans)
  next
    case (Return e j)
    then have "keeps jr j \<or> (\<exists>h. framed jr h j)" using scanStep_frame [where env=env and jr=jr] by simp
    moreover have "ScanLoop env jr = (Done e, j)"
      using Return by (subst ScanLoop.simps) simp
    ultimately show ?thesis using keeps_refl by auto
  next
    case (Panic pv j)
    then have "keeps jr j" using scanStep_frame [where env=env and jr=jr] by simp
    moreover have "ScanLoop env jr = (Panicked pv, j)"
      using Panic by (subst ScanLoop.simps) simp
    ultimately show ?thesis by simp
  qed
qed


lemma readSOF_window:
  assumes "16 \<le> length p"
  shows "readSOF \<lparr>elems = take 16 p, beyond = s\<rparr> jr =
         discard (declared p + 2)
           ((if pos jr = 1 then jr\<lparr>sof := frameOf p\<rparr> else jr)
              \<lparr>trace := trace jr @ [SOFRead (pos jr) (frameOf p)]\<rparr>)"
proof -
  have "take 2 (drop 5 (take 16 p)) = take 2 (drop 5 p)"
    "take 2 (drop 7 (take 16 p)) = take 2 (drop 7 p)"
    "take 16 p ! 9 = p ! 9"
    by (simp_all add: drop_take)
  then show ?thesis
    using markerLength_window [OF assms, of s]
    by (simp add: readSOF_def Let_def sub_def frameOf_def)
qed

lemma frame_step:
  assumes "0 < pos jr" and "16 \<le> length (pending (br jr))"
    and "take 2 (pending (br jr)) = [markerFirstByte, m]" and "isSOFMarker m"
  shows "ScanLoop env jr =
         (Done (fst (readSOF (fst (peek 16 jr)) jr)), snd (readSOF (fst (peek 16 jr)) jr))"
proof -
  note w = window_bytes [OF assms(3) assms(2)]
  have "m \<noteq> markerSOI" using assms(4) by (auto simp: isSOFMarker_def marker_defs)
  then have "scanStep env jr = fallThrough (readSOF (fst (peek 16 jr)) jr)"
    using assms w
    by (simp add: scanStep_def isMarkerFirstByte_def isSOIMarker_def scanSwitch_def Let_def)
  then show ?thesis
    by (simp add: ScanLoop.simps fallThrough_def)
qed

subsection \<open>Where a panic can come from\<close>







subsection \<open>What \<open>readExif\<close> does\<close>

lemma readExif_run:
  assumes "peek 16 jr = (buf, None)"
    and "18 \<le> length (pending (br jr))"
  shows "(ExifReader jr = Some cb
          \<and> orderUint32 (BinaryOrder env (take 8 (drop 10 (pending (br jr)))))
                (take 4 (drop 14 (pending (br jr)))) = Some off \<longrightarrow>
          readExif env buf jr =
            (let hdr = NewExifHeader env (BinaryOrder env (take 8 (drop 10 (pending (br jr)))))
                         off (discarded jr + 10) (word_of_int (markerLength buf - 8)) ImageJPEG;
                 rd = (br jr)\<lparr>pending := drop 10 (pending (br jr))\<rparr>
             in (snd (cb hdr rd),
                 jr\<lparr>br := rd\<lparr>pending := drop (fst (cb hdr rd)) (pending rd)\<rparr>,
                    discarded := discarded jr + 10,
                    trace := trace jr @ [ExifCall hdr (pending rd)]\<rparr>)))
       \<and> (ExifReader jr = None \<and> 8 \<le> markerLength buf
          \<and> nat (markerLength buf) + 2 \<le> length (pending (br jr)) \<longrightarrow>
          readExif env buf jr = (Done None, advance (nat (markerLength buf) + 2) jr))"
proof -
  have d10: "discard 10 jr = (None, advance 10 jr)"
    using discard_ok [of 10 jr] assms(2) by simp
  have d0: "\<And>j. discard 0 j = (None, j)"
    by (simp add: discard_def)
  have pk: "peek 8 (advance 10 jr) =
      (\<lparr>elems = take 8 (drop 10 (pending (br jr))),
        beyond = spare (br jr) (drop 10 (pending (br jr)))\<rparr>, None)"
    using assms(2) by (simp add: peek_def Peek_def exifPrefixLength_def advance_fields)
  have sb: "sub \<lparr>elems = take 8 (drop 10 (pending (br jr))),
        beyond = spare (br jr) (drop 10 (pending (br jr)))\<rparr> 4 8
      = take 4 (drop 14 (pending (br jr)))"
    by (simp add: sub_def drop_take)
  have adv: "advance 10 jr =
      jr\<lparr>br := (br jr)\<lparr>pending := drop 10 (pending (br jr))\<rparr>, discarded := discarded jr + 10\<rparr>"
    by (simp add: advance_def)
  show ?thesis
  proof (intro conjI impI)
    assume h: "ExifReader jr = Some cb
          \<and> orderUint32 (BinaryOrder env (take 8 (drop 10 (pending (br jr)))))
                (take 4 (drop 14 (pending (br jr)))) = Some off"
    let ?hdr = "NewExifHeader env (BinaryOrder env (take 8 (drop 10 (pending (br jr)))))
                  off (discarded jr + 10) (word_of_int (markerLength buf - 8)) ImageJPEG"
    let ?rd = "(br jr)\<lparr>pending := drop 10 (pending (br jr))\<rparr>"
    have er: "ExifReader (advance 10 jr) = Some cb"
      using h by (simp add: advance_fields)
    show "readExif env buf jr =
            (let hdr = ?hdr; rd = ?rd
             in (snd (cb hdr rd),
                 jr\<lparr>br := rd\<lparr>pending := drop (fst (cb hdr rd)) (pending rd)\<rparr>,
                    discarded := discarded jr + 10,
                    trace := trace jr @ [ExifCall hdr (pending rd)]\<rparr>))"
    proof (cases "cb ?hdr ?rd")
      case (Pair n out)
      then show ?thesis
        using h
        by (simp add: readExif_def exifPrefixLength_def d10 pk sb er Let_def d0 advance_fields
              split: option.splits outcome.splits)
           (auto simp: advance_def split: outcome.splits option.splits)
    qed
  next
    assume h: "ExifReader jr = None \<and> 8 \<le> markerLength buf
          \<and> nat (markerLength buf) + 2 \<le> length (pending (br jr))"
    have er: "ExifReader (advance 10 jr) = None"
      using h by (simp add: advance_fields)
    have "discard (markerLength buf - 8) (advance 10 jr)
          = (None, advance (nat (markerLength buf - 8)) (advance 10 jr))"
    proof (cases "markerLength buf = 8")
      case True
      then show ?thesis by (simp add: d0 advance_def)
    next
      case False
      with h have "0 < markerLength buf - 8"
        and "nat (markerLength buf - 8) \<le> length (pending (br (advance 10 jr)))"
        by (simp_all add: advance_fields) linarith
      then show ?thesis
        by (rule discard_ok)
    qed
    moreover have "nat (markerLength buf - 8) + 10 = nat (markerLength buf) + 2"
      using h by linarith
    ultimately show "readExif env buf jr = (Done None, advance (nat (markerLength buf) + 2) jr)"
      using h
      by (simp add: readExif_def exifPrefixLength_def d10 pk er Let_def advance_advance)
  qed
qed

subsection \<open>Segments the loop passes over\<close>

lemma skip_step:
  assumes c: "continuesAfter s" and p: "pending (br jr) = s @ rest"
    and a: "16 \<le> length (s @ rest)" and n: "0 < pos jr"
  shows "scanStep env jr = Continue (advance (length s) jr)"
proof -
  from c have len: "4 \<le> length s" and ff: "s ! 0 = markerFirstByte"
    and dl: "int (length s) = declared s + 2"
    by (simp_all add: continuesAfter_def)
  define buf where "buf = \<lparr>elems = take 16 (s @ rest), beyond = spare (br jr) (s @ rest)\<rparr>"
  have pk: "peek 16 jr = (buf, None)"
    using a p by (simp add: peek_def Peek_def buf_def)
  have "(s @ rest) ! 0 = s ! 0" "(s @ rest) ! 1 = s ! 1"
    using len by (auto simp: nth_append)
  moreover have "take 16 (s @ rest) ! 0 = (s @ rest) ! 0"
    "take 16 (s @ rest) ! 1 = (s @ rest) ! 1"
    by (rule nth_take, simp)+
  ultimately have e0: "elems buf ! 0 = markerFirstByte" and e1: "elems buf ! 1 = s ! 1"
    using ff by (simp_all add: buf_def del: take_append)
  have "take 2 (drop 2 (s @ rest)) = take 2 (drop 2 s)"
    using len by simp
  then have "declared (s @ rest) = declared s"
    by (simp only: declared_def)
  then have ml: "markerLength buf = int (length s) - 2"
    using markerLength_window [OF a] dl by (simp add: buf_def del: take_append)
  have "0 < int (length s)" "nat (int (length s)) \<le> length (pending (br jr))"
    using len p by auto
  then have "discard (int (length s)) jr = (None, advance (nat (int (length s))) jr)"
    by (rule discard_ok)
  then have d: "discard (markerLength buf + 2) jr = (None, advance (length s) jr)"
    by (simp add: ml)
  have ig: "ignoreMarker buf jr = (None, advance (length s) jr)"
    by (simp add: ignoreMarker_def d)
  have jf: "\<not> isJFIFPrefixExt buf" if "s ! 1 = markerAPP0"
  proof -
    from that c have l9: "9 \<le> length s" and nj: "take 5 (drop 4 s) \<noteq> jfifPrefixExt"
      by (auto simp: continuesAfter_def marker_defs)
    from l9 have "take 5 (drop 4 (take 16 (s @ rest))) = take 5 (drop 4 s)"
      by (simp add: drop_take)
    with nj show ?thesis
      by (simp add: isJFIFPrefixExt_def sub_def buf_def del: take_append)
  qed
  have kind: "s ! 1 = markerDQT \<or> s ! 1 = markerAPP2 \<or> s ! 1 = markerAPP13 \<or> s ! 1 = markerAPP0"
    using c by (auto simp: continuesAfter_def)
  have m1: "elems buf ! Suc 0 = s ! 1" using e1 by simp
  from kind consider (dqt) "s ! 1 = markerDQT" | (app2) "s ! 1 = markerAPP2"
    | (app13) "s ! 1 = markerAPP13" | (app0) "s ! 1 = markerAPP0" by blast
  then have sw: "scanSwitch env buf jr = Continue (advance (length s) jr)"
  proof cases
    case dqt
    then show ?thesis
      by (simp add: scanSwitch_def Let_def m1 isSOFMarker_def marker_defs continue_def ig)
  next
    case app2
    then show ?thesis
      by (simp add: scanSwitch_def Let_def m1 isSOFMarker_def marker_defs continue_def ig)
  next
    case app13
    then show ?thesis
      by (simp add: scanSwitch_def Let_def m1 isSOFMarker_def marker_defs continue_def ig)
  next
    case app0
    from jf [OF app0] app0 show ?thesis
      by (simp add: scanSwitch_def Let_def m1 isSOFMarker_def marker_defs continue_def ig
          jfifHeader_def d)
  qed
  have "s ! 1 \<noteq> markerSOI" using kind by (auto simp: marker_defs)
  then show ?thesis
    using n by (simp add: scanStep_def pk isMarkerFirstByte_def isSOIMarker_def e0 m1 sw)
qed

lemma advance_zero: "advance 0 jr = jr"
  by (simp add: advance_def)

lemma skip_segments:
  assumes "\<forall>s \<in> set segs. continuesAfter s"
    and "pending (br jr) = concat segs @ rest"
    and "16 \<le> length rest" and "0 < pos jr"
  shows "ScanLoop env jr = ScanLoop env (advance (length (concat segs)) jr)"
  using assms
proof (induction segs arbitrary: jr)
  case Nil
  show ?case by (simp add: advance_zero)
next
  case (Cons s segs)
  have st: "scanStep env jr = Continue (advance (length s) jr)"
    using Cons.prems by (intro skip_step [where rest = "concat segs @ rest"]) simp_all
  have "ScanLoop env jr = ScanLoop env (advance (length s) jr)"
    by (subst ScanLoop.simps) (simp add: st)
  also have "\<dots> = ScanLoop env (advance (length (concat segs)) (advance (length s) jr))"
    using Cons.prems by (intro Cons.IH) (simp_all add: advance_fields)
  finally show ?case by (simp add: advance_advance add.commute)
qed

lemma ScanLoop_trace:
  "\<exists>evs. trace (snd (ScanLoop env jr)) = trace jr @ evs"
  using ScanLoop_frame [of jr env]
  by (auto simp: keeps_def framed_def)

lemma SOI_step:
  assumes "16 \<le> length (pending (br jr))"
    and "take 2 (pending (br jr)) = [markerFirstByte, markerSOI]"
  shows "scanStep env jr = Continue (advance 2 (jr\<lparr>pos := pos jr + 1\<rparr>))"
proof -
  note w = window_bytes [OF assms(2) assms(1)]
  have "discard 2 (jr\<lparr>pos := pos jr + 1\<rparr>) = (None, advance 2 (jr\<lparr>pos := pos jr + 1\<rparr>))"
    using discard_ok [of 2 "jr\<lparr>pos := pos jr + 1\<rparr>"] assms(1) by simp
  then show ?thesis
    using w by (simp add: scanStep_def isMarkerFirstByte_def isSOIMarker_def continue_def)
qed

lemma DHT_step:
  assumes "pos jr = 1" and "16 \<le> length (pending (br jr))"
    and "take 2 (pending (br jr)) = [markerFirstByte, markerDHT]"
  shows "ScanLoop env jr = (Done (Some ErrEndOfImage), jr)"
proof -
  note w = window_bytes [OF assms(3) assms(2)]
  have "scanStep env jr = Return (Some ErrEndOfImage) jr"
    using assms(1) w
    by (simp add: scanStep_def isMarkerFirstByte_def isSOIMarker_def scanSwitch_def
        isSOFMarker_def Let_def marker_defs)
  then show ?thesis by (simp add: ScanLoop.simps)
qed

subsection \<open>The step at an Exif segment and at a segment that ends the scan\<close>

lemma Exif_step:
  assumes n: "0 < pos jr" and a: "18 \<le> length (pending (br jr))"
    and t: "take 2 (pending (br jr)) = [markerFirstByte, markerAPP1]"
    and x: "take 6 (drop 4 (pending (br jr))) = exifPrefix"
    and c: "ExifReader jr = Some cb"
    and o: "orderUint32 (BinaryOrder env (take 8 (drop 10 (pending (br jr)))))
              (take 4 (drop 14 (pending (br jr)))) = Some off"
  shows "\<exists>evs. trace (snd (ScanLoop env jr)) =
           trace jr @
           ExifCall (NewExifHeader env (BinaryOrder env (take 8 (drop 10 (pending (br jr)))))
                       off (discarded jr + 10)
                       (word_of_int (declared (pending (br jr)) - 8)) ImageJPEG)
             (drop 10 (pending (br jr))) # evs"
proof -
  have a16: "16 \<le> length (pending (br jr))" using a by simp
  define buf where "buf = \<lparr>elems = take 16 (pending (br jr)),
                             beyond = spare (br jr) (pending (br jr))\<rparr>"
  note w = window_bytes [OF t a16]
  have pk: "peek 16 jr = (buf, None)" using w(1) by (simp add: buf_def)
  have e0: "elems buf ! 0 = markerFirstByte" and e1: "elems buf ! Suc 0 = markerAPP1"
    using w(2,3) by (simp_all add: buf_def)
  have ml: "markerLength buf = declared (pending (br jr))"
    unfolding buf_def by (rule markerLength_window [OF a16])
  have "take 6 (drop 4 (take 16 (pending (br jr)))) = take 6 (drop 4 (pending (br jr)))"
    by (simp add: drop_take)
  then have ex: "isExifPrefix buf"
    using x by (simp add: isExifPrefix_def sub_def buf_def)
  define hdr where "hdr = NewExifHeader env (BinaryOrder env (take 8 (drop 10 (pending (br jr)))))
                       off (discarded jr + 10)
                       (word_of_int (declared (pending (br jr)) - 8)) ImageJPEG"
  define rd where "rd = (br jr)\<lparr>pending := drop 10 (pending (br jr))\<rparr>"
  define j2 where "j2 = jr\<lparr>br := rd\<lparr>pending := drop (fst (cb hdr rd)) (pending rd)\<rparr>,
                    discarded := discarded jr + 10,
                    trace := trace jr @ [ExifCall hdr (pending rd)]\<rparr>"
  have re: "readExif env buf jr = (snd (cb hdr rd), j2)"
    using readExif_run [OF pk a, of cb env off] c o
    by (simp add: Let_def ml hdr_def rd_def j2_def)
  have tr: "trace j2 = trace jr @ [ExifCall hdr (drop 10 (pending (br jr)))]"
    by (simp add: j2_def rd_def)
  have sw: "scanSwitch env buf jr =
      (case snd (cb hdr rd) of Done err \<Rightarrow> Continue j2 | Panicked pv \<Rightarrow> Panic pv j2)"
    by (simp add: scanSwitch_def Let_def e1 isSOFMarker_def marker_defs readAPP1_def ex re)
  have st: "scanStep env jr =
      (case snd (cb hdr rd) of Done err \<Rightarrow> Continue j2 | Panicked pv \<Rightarrow> Panic pv j2)"
    using n by (simp add: scanStep_def pk isMarkerFirstByte_def isSOIMarker_def e0 e1
        marker_defs sw)
  have "\<exists>evs. trace (snd (ScanLoop env jr)) = trace j2 @ evs"
  proof (cases "snd (cb hdr rd)")
    case (Done err)
    then have "ScanLoop env jr = ScanLoop env j2"
      using st by (subst ScanLoop.simps) simp
    then show ?thesis using ScanLoop_trace [of env j2] by simp
  next
    case (Panicked pv)
    then have "ScanLoop env jr = (Panicked pv, j2)"
      using st by (subst ScanLoop.simps) simp
    then show ?thesis by simp
  qed
  then show ?thesis
    unfolding tr hdr_def by auto
qed

lemma ends_step:
  assumes n: "0 < pos jr" and a: "16 \<le> length (pending (br jr))"
    and t: "take 2 (pending (br jr)) = [markerFirstByte, m]"
    and m: "endsScan m"
  shows "ScanLoop env jr =
         (Done (fst (discard (if m = markerDRI then 6 else declared (pending (br jr)) + 2) jr)),
          snd (discard (if m = markerDRI then 6 else declared (pending (br jr)) + 2) jr))"
proof -
  define buf where "buf = \<lparr>elems = take 16 (pending (br jr)),
                             beyond = spare (br jr) (pending (br jr))\<rparr>"
  note w = window_bytes [OF t a]
  have pk: "peek 16 jr = (buf, None)" using w(1) by (simp add: buf_def)
  have e0: "elems buf ! 0 = markerFirstByte" and e1: "elems buf ! Suc 0 = m"
    using w(2,3) by (simp_all add: buf_def)
  have ml: "markerLength buf = declared (pending (br jr))"
    unfolding buf_def by (rule markerLength_window [OF a])
  have sw: "scanSwitch env buf jr =
      returns (discard (if m = markerDRI then 6 else declared (pending (br jr)) + 2) jr)"
    using m
    by (auto simp: endsScan_def scanSwitch_def Let_def e1 isSOFMarker_def marker_defs
        ignoreMarker_def ml)
  have "m \<noteq> markerSOI" using m by (auto simp: endsScan_def marker_defs)
  then have "scanStep env jr =
      returns (discard (if m = markerDRI then 6 else declared (pending (br jr)) + 2) jr)"
    using n by (simp add: scanStep_def pk isMarkerFirstByte_def isSOIMarker_def e0 e1 sw)
  then show ?thesis
    by (subst ScanLoop.simps) (simp add: returns_def)
qed

section \<open>Properties of package exif\<close>

text \<open>
  C7.  For every result object and every key (directory kind, directory index, tag id) that
  is absent from its tag map, \<open>GetTag\<close> returns the zero tag together with \<open>ErrEmptyTag\<close>: an
  ordinary return value, with the result object, and so its tag map, left as it was.
\<close>

theorem GetTag_absent:
  assumes "tagMap e (NewKey ifd ifdIndex tagID) = None"
  shows "GetTag e ifd ifdIndex tagID = ((zeroTag, Some ErrEmptyTag), e)"
  using assms by (simp add: GetTag_def)

text \<open>The result object of the example holds the Make tag only; the Model tag (0x0110) is a miss.\<close>

theorem GetTag_absent_witness:
  "tagMap exampleData (NewKey IFD0 0 0x0110) = None
   \<and> GetTag exampleData IFD0 0 0x0110 = ((zeroTag, Some ErrEmptyTag), exampleData)"
proof -
  have miss: "tagMap exampleData (NewKey IFD0 0 0x0110) = None"
    by (simp add: exampleData_def NewKey_def)
  from GetTag_absent [OF miss] miss show ?thesis by simp
qed

text \<open>
  C10.  For a tag of type ASCII, ASCII without NUL, or byte, \<open>GetTagValue\<close> returns the string
  that \<open>ParseASCIIValue\<close> decodes, cut to its first 64 characters when it is longer and whole
  otherwise; for a type outside ASCII, byte, short, long, rational and signed rational it
  returns nil.
\<close>

theorem GetTagValue_ascii_limit:
  "(tagType t \<in> {TypeASCII, TypeASCIINoNul, TypeByte} \<longrightarrow>
      GetTagValue env e t = VString (take 64 (fst (ParseASCIIValue env e t)))
      \<and> (length (fst (ParseASCIIValue env e t)) \<le> 64 \<longrightarrow>
           GetTagValue env e t = VString (fst (ParseASCIIValue env e t))))
   \<and> (tagType t \<notin> {TypeASCII, TypeASCIINoNul, TypeByte, TypeShort, TypeLong,
                      TypeRational, TypeSignedRational} \<longrightarrow>
      GetTagValue env e t = VNil)"
  by (cases "tagType t") (auto simp: GetTagValue_def asciiLimit_def Let_def)

theorem GetTagValue_ascii_limit_witness:
  "tagType exampleTag \<in> {TypeASCII, TypeASCIINoNul, TypeByte}
   \<and> length (fst (ParseASCIIValue exampleEnv exampleData exampleTag)) = 70
   \<and> GetTagValue exampleEnv exampleData exampleTag = VString (replicate 64 CHR ''A'')
   \<and> tagType exampleUndefinedTag \<notin> {TypeASCII, TypeASCIINoNul, TypeByte, TypeShort, TypeLong,
                      TypeRational, TypeSignedRational}
   \<and> GetTagValue exampleEnv exampleData exampleUndefinedTag = VNil"
  using GetTagValue_ascii_limit [of exampleTag exampleEnv exampleData]
        GetTagValue_ascii_limit [of exampleUndefinedTag exampleEnv exampleData]
  by (simp add: exampleTag_def exampleUndefinedTag_def exampleEnv_def exampleParseASCII_def)

text \<open>
  C2, as stated, fails: a valid header whose first-directory designator is \<open>NullIFD\<close> is not
  rejected by \<open>ParseExif\<close>.  The designator is replaced by \<open>IFD0\<close>, the directory walk runs
  and a result object comes back without an error.
\<close>

theorem ParseExif_null_ifd_counterexample:
  "IsValid exampleEnv exampleHeader
   \<and> FirstIfd exampleHeader = NullIFD
   \<and> ParseExif exampleEnv () exampleHeader = (Some exampleData, None)"
  by (simp add: ParseExif_def exampleEnv_def exampleIsValid_def exampleHeader_def
      exampleScanIFD_def exampleData_def newData_def NewIFD_def Let_def)

text \<open>
  C2, amended.  \<open>ParseExif\<close> fails up front with \<open>ErrInvalidHeader\<close>, returning no result
  object and without calling the directory walk, exactly when the header is not valid.  For
  a valid header it always returns a result object: the walk is started at index 0 and the
  header's first-directory offset, on the header's directory kind, or on \<open>IFD0\<close> when that
  kind is \<open>NullIFD\<close>.  The re-entrant \<open>ParseIfd\<close> is the entry point that rejects both an
  invalid header and a \<open>NullIFD\<close> designator, leaving the result object untouched.
\<close>

theorem ParseExif_invalid_header:
  "(fst (ParseExif env r h) = None \<longleftrightarrow> \<not> IsValid env h)
   \<and> (\<not> IsValid env h \<longrightarrow> ParseExif env r h = (None, Some ErrInvalidHeader))
   \<and> (IsValid env h \<longrightarrow>
        ParseExif env r h =
          (let k = (if FirstIfd h = NullIFD then IFD0 else FirstIfd h);
               rd = newReader env r (h\<lparr>FirstIfd := k\<rparr>);
               res = scanIFD env rd (newData rd (ImageType h)) (NewIFD k 0 (FirstIfdOffset h))
           in (Some (snd res), fst res)))
   \<and> (\<not> IsValid env h \<or> FirstIfd h = NullIFD \<longrightarrow>
        ParseIfd env e h = (Some ErrInvalidHeader, e))"
  by (auto simp: ParseExif_def ParseIfd_def Let_def split: prod.splits)

theorem ParseExif_invalid_header_witness:
  "\<not> IsValid exampleEnv exampleBadHeader
   \<and> ParseExif exampleEnv () exampleBadHeader = (None, Some ErrInvalidHeader)
   \<and> IsValid exampleEnv exampleHeader
   \<and> fst (ParseExif exampleEnv () exampleHeader) \<noteq> None
   \<and> FirstIfd exampleHeader = NullIFD
   \<and> ParseIfd exampleEnv exampleData exampleHeader = (Some ErrInvalidHeader, exampleData)"
proof -
  have bad: "\<not> IsValid exampleEnv exampleBadHeader"
    by (simp add: exampleEnv_def exampleIsValid_def exampleBadHeader_def exampleHeader_def)
  have good: "IsValid exampleEnv exampleHeader"
    by (simp add: exampleEnv_def exampleIsValid_def exampleHeader_def)
  have null: "FirstIfd exampleHeader = NullIFD"
    by (simp add: exampleHeader_def)
  from bad good null
    ParseExif_invalid_header [of exampleEnv "()" exampleBadHeader exampleData]
    ParseExif_invalid_header [of exampleEnv "()" exampleHeader exampleData]
  show ?thesis by blast
qed

section \<open>The scan: lookahead, errors, frames, panics, segments\<close>

text \<open>
  C4, as stated, fails: a DHT marker at nesting level 1 that has fewer than 16 bytes after
  its start is not classified.  In the stream below (SOI, an APP2 segment of 14 bytes, a DHT
  marker with a short table, EOI) the lookahead at the DHT marker fails and the scan returns
  \<open>ErrNoJPEGMarker\<close>, not the end-of-image sentinel: the scanner does read past the
  marker's start.
\<close>

theorem DHT_short_lookahead_counterexample:
  "fst (ScanJPEG exampleJpegEnv
         (streamReader (segSOI
            @ [0xFF, 0xE2, 0x00, 0x0C, 0, 1, 2, 3, 4, 5, 6, 7, 8, 9]
            @ [0xFF, 0xC4, 0x00, 0x05, 0x00, 0x01, 0x02] @ segEOI) EOF)
         None None)
   = Returned (Some ErrNoJPEGMarker)"
  by code_simp

text \<open>
  C4, amended.  When a DHT marker is at the read position while the nesting counter is 1 and
  at least 16 bytes (the lookahead window) are available from the marker's start, the scan
  stops there with \<open>ErrEndOfImage\<close> and leaves the reader as it found it: no byte at or
  after the marker's start is discarded, no callback runs.  With fewer than 16 bytes from
  the marker's start the lookahead fails and the scan ends with \<open>ErrNoJPEGMarker\<close>.
\<close>

theorem DHT_outermost_stops:
  assumes "pos jr = 1"
    and "take 2 (pending (br jr)) = [markerFirstByte, markerDHT]"
  shows "(16 \<le> length (pending (br jr)) \<longrightarrow>
            ScanLoop env jr = (Done (Some ErrEndOfImage), jr))
       \<and> (length (pending (br jr)) < 16 \<longrightarrow>
            ScanLoop env jr = (Done (Some ErrNoJPEGMarker), jr))"
proof (intro conjI impI)
  assume avail: "16 \<le> length (pending (br jr))"
  note w = window_bytes [OF assms(2) avail]
  have "scanStep env jr = Return (Some ErrEndOfImage) jr"
    using assms(1) w
    by (simp add: scanStep_def isMarkerFirstByte_def isSOIMarker_def scanSwitch_def
        isSOFMarker_def Let_def marker_defs)
  then show "ScanLoop env jr = (Done (Some ErrEndOfImage), jr)"
    by (simp add: ScanLoop.simps)
next
  assume "length (pending (br jr)) < 16"
  then show "ScanLoop env jr = (Done (Some ErrNoJPEGMarker), jr)"
    by (simp add: ScanLoop.simps scanStep_short)
qed

theorem DHT_outermost_stops_witness:
  "pos atDHT = 1
   \<and> take 2 (pending (br atDHT)) = [markerFirstByte, markerDHT]
   \<and> 16 \<le> length (pending (br atDHT))
   \<and> ScanLoop exampleJpegEnv atDHT = (Done (Some ErrEndOfImage), atDHT)
   \<and> pos atShortDHT = 1
   \<and> take 2 (pending (br atShortDHT)) = [markerFirstByte, markerDHT]
   \<and> length (pending (br atShortDHT)) < 16
   \<and> ScanLoop exampleJpegEnv atShortDHT = (Done (Some ErrNoJPEGMarker), atShortDHT)"
proof -
  have a: "pos atDHT = 1" "take 2 (pending (br atDHT)) = [markerFirstByte, markerDHT]"
    "16 \<le> length (pending (br atDHT))"
    by (simp_all add: atDHT_def newJPEGReader_def streamReader_def segDHT_def marker_defs)
  have b: "pos atShortDHT = 1"
    "take 2 (pending (br atShortDHT)) = [markerFirstByte, markerDHT]"
    "length (pending (br atShortDHT)) < 16"
    by (simp_all add: atShortDHT_def newJPEGReader_def streamReader_def segDHT_def marker_defs)
  from a b DHT_outermost_stops [OF a(1) a(2), of exampleJpegEnv]
    DHT_outermost_stops [OF b(1) b(2), of exampleJpegEnv]
  show ?thesis by simp
qed

text \<open>
  C9, as stated, fails: the stream below delivers SOI and a quantization table and then
  fails with an I/O error.  The start-of-image signature has been seen, and still the caller
  receives \<open>ErrNoJPEGMarker\<close> in place of the reader's error.
\<close>

theorem io_failure_replaced_counterexample:
  "fst (ScanJPEG exampleJpegEnv (streamReader (segSOI @ segDQT) (ErrIO 5)) None None)
   = Returned (Some ErrNoJPEGMarker)"
  by code_simp

text \<open>
  C9, amended.  Whenever the 16-byte lookahead at the top of the loop cannot be filled, be it
  by the end of the stream or by an I/O failure, before or after a start-of-image marker,
  the scan returns \<open>ErrNoJPEGMarker\<close> and the reader's own error is dropped.  The reader's
  own error reaches the caller unchanged from a discard that falls short in a branch that
  returns its result: a frame header, a nested DHT, or an APP7 to APP10 or APP14 segment whose
  declared length runs past the end of the stream.
\<close>

theorem lookahead_failure_is_ErrNoJPEGMarker:
  "(length (pending (br jr)) < 16 \<longrightarrow>
      ScanLoop env jr = (Done (Some ErrNoJPEGMarker), jr))
   \<and> (16 \<le> length (pending (br jr)) \<and> 0 < pos jr
       \<and> take 2 (pending (br jr)) = [markerFirstByte, m]
       \<and> (isSOFMarker m \<or> (m = markerDHT \<and> pos jr \<noteq> 1)
            \<or> m \<in> {markerAPP7, markerAPP8, markerAPP9, markerAPP10, markerAPP14})
       \<and> int (length (pending (br jr))) < declared (pending (br jr)) + 2 \<longrightarrow>
      fst (ScanLoop env jr) = Done (Some (rerr (br jr))))"
proof (intro conjI impI)
  assume "length (pending (br jr)) < 16"
  then show "ScanLoop env jr = (Done (Some ErrNoJPEGMarker), jr)"
    by (simp add: ScanLoop.simps scanStep_short)
next
  assume h: "16 \<le> length (pending (br jr)) \<and> 0 < pos jr
       \<and> take 2 (pending (br jr)) = [markerFirstByte, m]
       \<and> (isSOFMarker m \<or> (m = markerDHT \<and> pos jr \<noteq> 1)
            \<or> m \<in> {markerAPP7, markerAPP8, markerAPP9, markerAPP10, markerAPP14})
       \<and> int (length (pending (br jr))) < declared (pending (br jr)) + 2"
  then have avail: "16 \<le> length (pending (br jr))"
    and tk: "take 2 (pending (br jr)) = [markerFirstByte, m]" by simp_all
  note w = window_bytes [OF tk avail]
  let ?buf = "\<lparr>elems = take 16 (pending (br jr)),
               beyond = spare (br jr) (pending (br jr))\<rparr>"
  have ml: "markerLength ?buf = declared (pending (br jr))"
    by (rule markerLength_window [OF avail])
  have short: "\<And>j. pending (br j) = pending (br jr) \<Longrightarrow> rerr (br j) = rerr (br jr) \<Longrightarrow>
      fst (discard (declared (pending (br jr)) + 2) j) = Some (rerr (br jr))"
    using h by (subst discard_short) auto
  have ig: "fst (ignoreMarker ?buf jr) = Some (rerr (br jr))"
    by (simp add: ignoreMarker_def ml short)
  have rs: "fst (readSOF ?buf jr) = Some (rerr (br jr))"
    by (simp add: readSOF_def Let_def ml short)
  have "\<exists>j. scanStep env jr = Return (Some (rerr (br jr))) j"
    using h w ig rs
    by (auto simp: scanStep_def isMarkerFirstByte_def isSOIMarker_def scanSwitch_def
        fallThrough_def returns_def isSOFMarker_def Let_def marker_defs)
  then show "fst (ScanLoop env jr) = Done (Some (rerr (br jr)))"
    by (auto simp: ScanLoop.simps)
qed

theorem lookahead_failure_is_ErrNoJPEGMarker_witness:
  "length (pending (br atShortDHT)) < 16
   \<and> rerr (br atShortDHT) = ErrIO 5
   \<and> ScanLoop exampleJpegEnv atShortDHT = (Done (Some ErrNoJPEGMarker), atShortDHT)
   \<and> 16 \<le> length (pending (br atShortSOF)) \<and> 0 < pos atShortSOF
   \<and> take 2 (pending (br atShortSOF)) = [markerFirstByte, markerSOF0]
   \<and> isSOFMarker markerSOF0
   \<and> int (length (pending (br atShortSOF))) < declared (pending (br atShortSOF)) + 2
   \<and> fst (ScanLoop exampleJpegEnv atShortSOF) = Done (Some (ErrIO 5))"
proof -
  have a: "length (pending (br atShortDHT)) < 16" "rerr (br atShortDHT) = ErrIO 5"
    by (simp_all add: atShortDHT_def newJPEGReader_def streamReader_def segDHT_def)
  have b: "16 \<le> length (pending (br atShortSOF))" "0 < pos atShortSOF"
    "take 2 (pending (br atShortSOF)) = [markerFirstByte, markerSOF0]"
    "isSOFMarker markerSOF0"
    "int (length (pending (br atShortSOF))) < declared (pending (br atShortSOF)) + 2"
    "rerr (br atShortSOF) = ErrIO 5"
    by (simp_all add: atShortSOF_def newJPEGReader_def streamReader_def segSOF0_def
        marker_defs isSOFMarker_def declared_def jpegEndianUint16_def)
  from a b lookahead_failure_is_ErrNoJPEGMarker [of atShortDHT exampleJpegEnv]
    lookahead_failure_is_ErrNoJPEGMarker [of atShortSOF exampleJpegEnv markerSOF0]
  show ?thesis by simp
qed

text \<open>
  C1, as stated, fails in its last part: after the Exif callback returns, the scanner
  discards nothing.  Here the segment declares 34 bytes, so 26 bytes of TIFF block follow
  the prefix; the callback reads none of them, and after \<open>readExif\<close> all 26 are still
  pending, with 10 bytes discarded for the marker, the length field and the prefix.
\<close>

theorem readExif_leaves_remainder_counterexample:
  "isExifPrefix (fst (peek 16 (atExif (Some exifReadsNothing))))
   \<and> markerLength (fst (peek 16 (atExif (Some exifReadsNothing)))) - exifPrefixLength = 26
   \<and> fst (readExif exampleJpegEnv (fst (peek 16 (atExif (Some exifReadsNothing))))
             (atExif (Some exifReadsNothing))) = Done None
   \<and> pending (br (snd (readExif exampleJpegEnv
                            (fst (peek 16 (atExif (Some exifReadsNothing))))
                            (atExif (Some exifReadsNothing)))))
       = drop 10 segExif @ afterExif
   \<and> length (drop 10 segExif) = 26
   \<and> discarded (snd (readExif exampleJpegEnv
                          (fst (peek 16 (atExif (Some exifReadsNothing))))
                          (atExif (Some exifReadsNothing)))) = 12"
  by code_simp

text \<open>
  C1, amended.  When the scanner has matched an Exif APP1 segment (the window \<open>buf\<close> at the
  marker) and at least 18 bytes are pending, \<open>readExif\<close> computes the payload length as the
  declared length minus 8, discards 10 bytes (marker, length field and prefix) and peeks the
  8 bytes of the TIFF header.  With a callback installed and a byte-order mark that
  \<open>BinaryOrder\<close> recognises, it builds the header from that byte order, the first-IFD
  offset decoded in it, the \<open>discarded\<close> counter at that moment as the origin of the TIFF
  block and the payload length (as a 32-bit value), and calls the callback with the reader at
  the start of the TIFF block.  After the callback it discards nothing: the reader is left
  where the callback left it, and how the callback ended is how \<open>readExif\<close> ends.  With no
  callback installed and the whole declared segment in the stream, the scanner discards the
  payload itself, declared length plus 2 bytes in all.
\<close>

theorem readExif_hands_over:
  assumes "peek 16 jr = (buf, None)"
    and "18 \<le> length (pending (br jr))"
  shows "(ExifReader jr = Some cb
          \<and> orderUint32 (BinaryOrder env (take 8 (drop 10 (pending (br jr)))))
                (take 4 (drop 14 (pending (br jr)))) = Some off \<longrightarrow>
          readExif env buf jr =
            (let hdr = NewExifHeader env (BinaryOrder env (take 8 (drop 10 (pending (br jr)))))
                         off (discarded jr + 10) (word_of_int (markerLength buf - 8)) ImageJPEG;
                 rd = (br jr)\<lparr>pending := drop 10 (pending (br jr))\<rparr>
             in (snd (cb hdr rd),
                 jr\<lparr>br := rd\<lparr>pending := drop (fst (cb hdr rd)) (pending rd)\<rparr>,
                    discarded := discarded jr + 10,
                    trace := trace jr @ [ExifCall hdr (pending rd)]\<rparr>)))
       \<and> (ExifReader jr = None \<and> 8 \<le> markerLength buf
          \<and> nat (markerLength buf) + 2 \<le> length (pending (br jr)) \<longrightarrow>
          readExif env buf jr = (Done None, advance (nat (markerLength buf) + 2) jr))"
  using assms by (rule readExif_run)

text \<open>
  The example segment with a callback that reads the 8 bytes of the TIFF header: the header
  it is given is little endian, first directory at 8, origin 12, length 26.
\<close>

theorem readExif_hands_over_witness:
  "peek 16 (atExif (Some exifReadsHeader))
     = (fst (peek 16 (atExif (Some exifReadsHeader))), None)
   \<and> 18 \<le> length (pending (br (atExif (Some exifReadsHeader))))
   \<and> ExifReader (atExif (Some exifReadsHeader)) = Some exifReadsHeader
   \<and> orderUint32
        (BinaryOrder exampleJpegEnv
           (take 8 (drop 10 (pending (br (atExif (Some exifReadsHeader)))))))
        (take 4 (drop 14 (pending (br (atExif (Some exifReadsHeader)))))) = Some 8
   \<and> fst (readExif exampleJpegEnv (fst (peek 16 (atExif (Some exifReadsHeader))))
             (atExif (Some exifReadsHeader))) = Done None
   \<and> trace (snd (readExif exampleJpegEnv (fst (peek 16 (atExif (Some exifReadsHeader))))
             (atExif (Some exifReadsHeader))))
       = [ExifCall \<lparr>ByteOrder = LittleEndian, FirstIfdOffset = 8, TiffHeaderOffset = 12,
                    ExifLength = 26, ImageType = ImageJPEG, FirstIfd = NullIFD\<rparr>
            (drop 10 segExif @ afterExif)]
   \<and> pending (br (snd (readExif exampleJpegEnv
                            (fst (peek 16 (atExif (Some exifReadsHeader))))
                            (atExif (Some exifReadsHeader)))))
       = drop 18 segExif @ afterExif"
proof -
  let ?S = "atExif (Some exifReadsHeader)"
  let ?W = "fst (peek 16 ?S)"
  have "snd (peek 16 ?S) = None" by code_simp
  then have h1: "peek 16 ?S = (?W, None)" by (simp add: prod_eq_iff)
  have h2: "18 \<le> length (pending (br ?S))" by code_simp
  have h3: "ExifReader ?S = Some exifReadsHeader"
    by (simp add: atExif_def newJPEGReader_def)
  have h4: "orderUint32 (BinaryOrder exampleJpegEnv (take 8 (drop 10 (pending (br ?S)))))
              (take 4 (drop 14 (pending (br ?S)))) = Some 8"
    by code_simp
  have ml: "word_of_int (markerLength ?W) - 8 = (26 :: 32 word)" by code_simp
  have pd: "pending (br ?S) = segExif @ afterExif" "discarded ?S = 2" "trace ?S = []"
    by (simp_all add: atExif_def newJPEGReader_def streamReader_def)
  have bo: "BinaryOrder exampleJpegEnv (take 8 (drop 10 segExif)) = LittleEndian"
    by code_simp
  have len: "length segExif = 36" by (simp add: segExif_def)
  from readExif_hands_over [OF h1 h2, of exifReadsHeader exampleJpegEnv 8] h3 h4
  have eq: "readExif exampleJpegEnv ?W ?S =
      (let hdr = NewExifHeader exampleJpegEnv
                   (BinaryOrder exampleJpegEnv (take 8 (drop 10 (pending (br ?S)))))
                   8 (discarded ?S + 10) (word_of_int (markerLength ?W - 8)) ImageJPEG;
           rd = (br ?S)\<lparr>pending := drop 10 (pending (br ?S))\<rparr>
       in (snd (exifReadsHeader hdr rd),
           ?S\<lparr>br := rd\<lparr>pending := drop (fst (exifReadsHeader hdr rd)) (pending rd)\<rparr>,
              discarded := discarded ?S + 10,
              trace := trace ?S @ [ExifCall hdr (pending rd)]\<rparr>))"
    by blast
  have hd: "NewExifHeader exampleJpegEnv LittleEndian 8 12 26 ImageJPEG =
      \<lparr>ByteOrder = LittleEndian, FirstIfdOffset = 8, TiffHeaderOffset = 12,
       ExifLength = 26, ImageType = ImageJPEG, FirstIfd = NullIFD\<rparr>"
    by (simp add: exampleJpegEnv_def exampleNewExifHeader_def)
  show ?thesis
    using h1 h2 h3 h4 unfolding eq
    by (simp add: Let_def ml bo pd len exifReadsHeader_def hd)
qed






text \<open>
  C5, as stated, fails: an APP14 segment before the Exif segment ends the scan.  The
  scanner discards the 16 bytes of the APP14 segment and returns nil; the Exif callback is
  never invoked.
\<close>

theorem scan_ends_at_APP14_counterexample:
  "fst (ScanJPEG exampleJpegEnv
         (streamReader (segSOI @ segAPP14 @ segExif @ afterExif) EOF)
         (Some exifReadsHeader) None) = Returned None
   \<and> trace (snd (ScanJPEG exampleJpegEnv
         (streamReader (segSOI @ segAPP14 @ segExif @ afterExif) EOF)
         (Some exifReadsHeader) None)) = []
   \<and> discarded (snd (ScanJPEG exampleJpegEnv
         (streamReader (segSOI @ segAPP14 @ segExif @ afterExif) EOF)
         (Some exifReadsHeader) None)) = 18"
  by code_simp

text \<open>
  C5, amended.  When an Exif APP1 segment comes, with the nesting counter above 0, after
  segments of the kinds the loop continues after (quantization tables, APP2 and APP13
  segments, APP0 segments other than JFXX), the scanner discards each of them by exactly its
  declared length plus the two marker bytes, reaches the Exif segment and, with a callback
  installed, 18 bytes pending and a recognised byte order, invokes the callback; the origin
  in the header counts every discarded byte.  A restart-interval, APP7 to APP10 or APP14
  segment instead ends the scan: the scanner discards it (6 bytes for a restart interval)
  and returns without invoking a callback, so an Exif segment behind it is not reached.
\<close>

theorem exif_reached_after_passed_segments:
  assumes "\<forall>s \<in> set segs. continuesAfter s" and "0 < pos jr"
    and "pending (br jr) = concat segs @ p" and "18 \<le> length p"
  shows "(take 2 p = [markerFirstByte, markerAPP1] \<and> take 6 (drop 4 p) = exifPrefix
          \<and> ExifReader jr = Some cb
          \<and> orderUint32 (BinaryOrder env (take 8 (drop 10 p))) (take 4 (drop 14 p)) = Some off
          \<longrightarrow>
          (\<exists>evs. trace (snd (ScanLoop env jr)) =
             trace jr @
             ExifCall (NewExifHeader env (BinaryOrder env (take 8 (drop 10 p))) off
                         (discarded jr + of_nat (length (concat segs)) + 10)
                         (word_of_int (declared p - 8)) ImageJPEG)
               (drop 10 p) # evs))
       \<and> (take 2 p = [markerFirstByte, m] \<and> endsScan m \<longrightarrow>
          (\<exists>err. fst (ScanLoop env jr) = Done err)
          \<and> trace (snd (ScanLoop env jr)) = trace jr
          \<and> pending (br (snd (ScanLoop env jr)))
              = drop (if m = markerDRI then 6 else nat (declared p + 2)) p)"
proof -
  define j1 where "j1 = advance (length (concat segs)) jr"
  have sk: "ScanLoop env jr = ScanLoop env j1"
    unfolding j1_def using assms by (intro skip_segments) auto
  have f: "pending (br j1) = p" "0 < pos j1" "trace j1 = trace jr"
    "ExifReader j1 = ExifReader jr"
    "discarded j1 = discarded jr + of_nat (length (concat segs))"
    using assms by (simp_all add: j1_def advance_fields)
  show ?thesis
  proof (intro conjI impI)
    assume h: "take 2 p = [markerFirstByte, markerAPP1] \<and> take 6 (drop 4 p) = exifPrefix
          \<and> ExifReader jr = Some cb
          \<and> orderUint32 (BinaryOrder env (take 8 (drop 10 p))) (take 4 (drop 14 p)) = Some off"
    from Exif_step [of j1 cb env off] h f assms(4)
    show "\<exists>evs. trace (snd (ScanLoop env jr)) =
             trace jr @
             ExifCall (NewExifHeader env (BinaryOrder env (take 8 (drop 10 p))) off
                         (discarded jr + of_nat (length (concat segs)) + 10)
                         (word_of_int (declared p - 8)) ImageJPEG)
               (drop 10 p) # evs"
      by (simp add: sk)
  next
    assume h: "take 2 p = [markerFirstByte, m] \<and> endsScan m"
    have a16: "16 \<le> length (pending (br j1))" using f(1) assms(4) by simp
    have e: "ScanLoop env j1 =
         (Done (fst (discard (if m = markerDRI then 6 else declared p + 2) j1)),
          snd (discard (if m = markerDRI then 6 else declared p + 2) j1))"
      using ends_step [OF f(2) a16, of m env] h f(1) by simp
    show "\<exists>err. fst (ScanLoop env jr) = Done err"
      by (simp add: sk e)
    show "trace (snd (ScanLoop env jr)) = trace jr"
      by (simp add: sk e discard_fields f)
    show "pending (br (snd (ScanLoop env jr)))
              = drop (if m = markerDRI then 6 else nat (declared p + 2)) p"
      by (simp add: sk e discard_pending f)
  qed
qed

theorem exif_reached_after_passed_segments_witness:
  "continuesAfter segDQT \<and> 0 < pos atDQTExif
   \<and> pending (br atDQTExif) = concat [segDQT] @ (segExif @ afterExif)
   \<and> 18 \<le> length (segExif @ afterExif)
   \<and> take 2 (segExif @ afterExif) = [markerFirstByte, markerAPP1]
   \<and> take 6 (drop 4 (segExif @ afterExif)) = exifPrefix
   \<and> ExifReader atDQTExif = Some exifReadsHeader
   \<and> orderUint32 (BinaryOrder exampleJpegEnv (take 8 (drop 10 (segExif @ afterExif))))
        (take 4 (drop 14 (segExif @ afterExif))) = Some 8
   \<and> (\<exists>evs. trace (snd (ScanLoop exampleJpegEnv atDQTExif)) =
          ExifCall \<lparr>ByteOrder = LittleEndian, FirstIfdOffset = 8, TiffHeaderOffset = 81,
                    ExifLength = 26, ImageType = ImageJPEG, FirstIfd = NullIFD\<rparr>
            (drop 10 (segExif @ afterExif)) # evs)
   \<and> 0 < pos atAPP14Exif
   \<and> pending (br atAPP14Exif) = concat [] @ (segAPP14 @ segExif @ afterExif)
   \<and> take 2 (segAPP14 @ segExif @ afterExif) = [markerFirstByte, markerAPP14]
   \<and> endsScan markerAPP14
   \<and> trace (snd (ScanLoop exampleJpegEnv atAPP14Exif)) = []
   \<and> pending (br (snd (ScanLoop exampleJpegEnv atAPP14Exif))) = segExif @ afterExif"
proof -
  let ?p = "segExif @ afterExif"
  have a0: "continuesAfter segDQT" by code_simp
  then have a1: "\<forall>s \<in> set [segDQT]. continuesAfter s" by simp
  have a2: "0 < pos atDQTExif" "trace atDQTExif = []"
    "pending (br atDQTExif) = concat [segDQT] @ ?p"
    "ExifReader atDQTExif = Some exifReadsHeader"
    by (simp_all add: atDQTExif_def newJPEGReader_def streamReader_def)
  have a4: "18 \<le> length ?p" by code_simp
  have a5: "take 2 ?p = [markerFirstByte, markerAPP1]" "take 6 (drop 4 ?p) = exifPrefix"
    by code_simp+
  have a6: "orderUint32 (BinaryOrder exampleJpegEnv (take 8 (drop 10 ?p)))
        (take 4 (drop 14 ?p)) = Some 8"
    by code_simp
  have hd: "NewExifHeader exampleJpegEnv (BinaryOrder exampleJpegEnv (take 8 (drop 10 ?p))) 8
              (discarded atDQTExif + of_nat (length (concat [segDQT])) + 10)
              (word_of_int (declared ?p - 8)) ImageJPEG
            = \<lparr>ByteOrder = LittleEndian, FirstIfdOffset = 8, TiffHeaderOffset = 81,
               ExifLength = 26, ImageType = ImageJPEG, FirstIfd = NullIFD\<rparr>"
    by code_simp
  from exif_reached_after_passed_segments
         [OF a1 a2(1) a2(3) a4, where cb = exifReadsHeader and env = exampleJpegEnv and off = 8]
       a5 a6 a2(4)
  have "\<exists>evs. trace (snd (ScanLoop exampleJpegEnv atDQTExif)) =
          trace atDQTExif @
          ExifCall (NewExifHeader exampleJpegEnv
                      (BinaryOrder exampleJpegEnv (take 8 (drop 10 ?p))) 8
                      (discarded atDQTExif + of_nat (length (concat [segDQT])) + 10)
                      (word_of_int (declared ?p - 8)) ImageJPEG)
            (drop 10 ?p) # evs"
    by blast
  then have r1: "\<exists>evs. trace (snd (ScanLoop exampleJpegEnv atDQTExif)) =
          ExifCall \<lparr>ByteOrder = LittleEndian, FirstIfdOffset = 8, TiffHeaderOffset = 81,
                    ExifLength = 26, ImageType = ImageJPEG, FirstIfd = NullIFD\<rparr>
            (drop 10 ?p) # evs"
    unfolding hd a2(2) by simp
  let ?q = "segAPP14 @ segExif @ afterExif"
  have b1: "\<forall>s \<in> set ([] :: byte list list). continuesAfter s" by simp
  have b2: "0 < pos atAPP14Exif" "trace atAPP14Exif = []"
    "pending (br atAPP14Exif) = concat [] @ ?q"
    by (simp_all add: atAPP14Exif_def newJPEGReader_def streamReader_def)
  have b4: "18 \<le> length ?q" by code_simp
  have b5: "take 2 ?q = [markerFirstByte, markerAPP14]" "endsScan markerAPP14"
    by code_simp+
  have b6: "drop (if markerAPP14 = markerDRI then 6 else nat (declared ?q + 2)) ?q
            = segExif @ afterExif"
    by code_simp
  from exif_reached_after_passed_segments
         [OF b1 b2(1) b2(3) b4, where env = exampleJpegEnv and m = markerAPP14] b5
  have r2: "trace (snd (ScanLoop exampleJpegEnv atAPP14Exif)) = trace atAPP14Exif"
    "pending (br (snd (ScanLoop exampleJpegEnv atAPP14Exif)))
       = drop (if markerAPP14 = markerDRI then 6 else nat (declared ?q + 2)) ?q"
    by blast+
  show ?thesis
    using a0 a2 a4 a5 a6 r1 b2 b5 r2 unfolding b6 by simp
qed

text \<open>
  C3, as stated, fails: the baseline file SOI, DQT, SOF0, DHT, SOS, EOI has one SOI/EOI pair
  and no Exif segment, and the scan of it returns nil, not \<open>ErrEndOfImage\<close>: it ends right
  after the frame header, which comes before the first Huffman table.
\<close>

theorem baseline_returns_nil_counterexample:
  "fst (ScanJPEG exampleJpegEnv (streamReader baseline EOF)
         (Some exifReadsNothing) (Some xmpReadsNothing)) = Returned None"
  by code_simp

text \<open>
  C3, amended.  For every stream that consists of SOI, segments of the kinds the loop
  continues after (quantization tables, APP2 and APP13 segments, APP0 segments other than
  JFXX) and then a DHT marker with at least 16 bytes from its start, \<open>ScanJPEG\<close> returns
  \<open>ErrEndOfImage\<close> and invokes neither callback.  When a frame header whose declared
  segment is in the stream comes in the place of the DHT marker, as in the usual baseline
  order, \<open>ScanJPEG\<close> returns nil after it, again without invoking a callback.
\<close>

theorem sentinel_at_DHT_nil_at_frame:
  assumes "\<forall>s \<in> set segs. continuesAfter s"
    and "pending r = [markerFirstByte, markerSOI] @ concat segs @ p"
    and "16 \<le> length p"
  shows "(take 2 p = [markerFirstByte, markerDHT] \<longrightarrow>
            fst (ScanJPEG env r exifReader xmpReader) = Returned (Some ErrEndOfImage)
            \<and> trace (snd (ScanJPEG env r exifReader xmpReader)) = [])
       \<and> (take 2 p = [markerFirstByte, m] \<and> isSOFMarker m
            \<and> declared p + 2 \<le> int (length p) \<longrightarrow>
            fst (ScanJPEG env r exifReader xmpReader) = Returned None
            \<and> callbackCalls (trace (snd (ScanJPEG env r exifReader xmpReader))) = [])"
proof -
  define j0 where "j0 = newJPEGReader r exifReader xmpReader"
  define j1 where "j1 = advance 2 (j0\<lparr>pos := pos j0 + 1\<rparr>)"
  define j2 where "j2 = advance (length (concat segs)) j1"
  have p0: "pending (br j0) = [markerFirstByte, markerSOI] @ concat segs @ p" "pos j0 = 0"
    "trace j0 = []"
    using assms(2) by (simp_all add: j0_def newJPEGReader_def)
  have "scanStep env j0 = Continue j1"
    unfolding j1_def using p0(1) assms(3) by (intro SOI_step) simp_all
  then have l0: "ScanLoop env j0 = ScanLoop env j1"
    by (subst ScanLoop.simps) simp
  have p1: "pending (br j1) = concat segs @ p" "pos j1 = 1" "trace j1 = []"
    using p0 by (simp_all add: j1_def advance_fields)
  have l1: "ScanLoop env j1 = ScanLoop env j2"
    unfolding j2_def using assms(1,3) p1 by (intro skip_segments) simp_all
  have p2: "pending (br j2) = p" "pos j2 = 1" "trace j2 = []"
    using p1 by (simp_all add: j2_def advance_fields)
  have a16: "16 \<le> length (pending (br j2))" using p2 assms(3) by simp
  have sj: "ScanJPEG env r exifReader xmpReader =
      (case ScanLoop env j2 of
         (Done err, jr) \<Rightarrow> (Returned err, jr)
       | (Panicked (PanicError e), jr) \<Rightarrow> (Returned (Some e), jr)
       | (Panicked (PanicValue v), jr) \<Rightarrow> (Escaped (PanicError ErrRuntime), jr))"
    by (simp add: ScanJPEG_def j0_def [symmetric] l0 l1)
  show ?thesis
  proof (intro conjI impI)
    assume h: "take 2 p = [markerFirstByte, markerDHT]"
    then have "ScanLoop env j2 = (Done (Some ErrEndOfImage), j2)"
      using p2 a16 by (intro DHT_step) simp_all
    then show "fst (ScanJPEG env r exifReader xmpReader) = Returned (Some ErrEndOfImage)"
      and "trace (snd (ScanJPEG env r exifReader xmpReader)) = []"
      using p2 by (simp_all add: sj)
  next
    assume h: "take 2 p = [markerFirstByte, m] \<and> isSOFMarker m
            \<and> declared p + 2 \<le> int (length p)"
    have t: "take 2 (pending (br j2)) = [markerFirstByte, m]" "0 < pos j2"
      using h p2 by simp_all
    have pk: "fst (peek 16 j2) = \<lparr>elems = take 16 p, beyond = spare (br j2) p\<rparr>"
      using window_bytes(1) [OF t(1) a16] p2 by simp
    define j3 where "j3 = j2\<lparr>sof := frameOf p, trace := [SOFRead 1 (frameOf p)]\<rparr>"
    have rs: "readSOF (fst (peek 16 j2)) j2 = discard (declared p + 2) j3"
      using readSOF_window [of p "spare (br j2) p" j2] assms(3) p2
      by (simp add: pk j3_def)
    have "0 \<le> declared p" by (simp add: declared_def)
    then have "0 < declared p + 2" "nat (declared p + 2) \<le> length (pending (br j3))"
      using h p2 by (auto simp: j3_def)
    then have d: "discard (declared p + 2) j3 = (None, advance (nat (declared p + 2)) j3)"
      by (rule discard_ok)
    have "ScanLoop env j2 = (Done None, advance (nat (declared p + 2)) j3)"
      using frame_step [OF t(2) a16 t(1), of env] h by (simp add: rs d)
    then show "fst (ScanJPEG env r exifReader xmpReader) = Returned None"
      and "callbackCalls (trace (snd (ScanJPEG env r exifReader xmpReader))) = []"
      by (simp_all add: sj advance_fields j3_def)
  qed
qed

theorem sentinel_at_DHT_nil_at_frame_witness:
  "continuesAfter segDQT
   \<and> pending (streamReader (segSOI @ segDQT @ segDHT @ segSOS @ segEOI) EOF)
       = [markerFirstByte, markerSOI] @ concat [segDQT] @ (segDHT @ segSOS @ segEOI)
   \<and> 16 \<le> length (segDHT @ segSOS @ segEOI)
   \<and> take 2 (segDHT @ segSOS @ segEOI) = [markerFirstByte, markerDHT]
   \<and> fst (ScanJPEG exampleJpegEnv
            (streamReader (segSOI @ segDQT @ segDHT @ segSOS @ segEOI) EOF)
            (Some exifReadsNothing) (Some xmpReadsNothing)) = Returned (Some ErrEndOfImage)
   \<and> trace (snd (ScanJPEG exampleJpegEnv
            (streamReader (segSOI @ segDQT @ segDHT @ segSOS @ segEOI) EOF)
            (Some exifReadsNothing) (Some xmpReadsNothing))) = []
   \<and> pending (streamReader baseline EOF)
       = [markerFirstByte, markerSOI] @ concat [segDQT] @ (segSOF0 @ segDHT @ segSOS @ segEOI)
   \<and> take 2 (segSOF0 @ segDHT @ segSOS @ segEOI) = [markerFirstByte, markerSOF0]
   \<and> isSOFMarker markerSOF0
   \<and> declared (segSOF0 @ segDHT @ segSOS @ segEOI) + 2
       \<le> int (length (segSOF0 @ segDHT @ segSOS @ segEOI))
   \<and> fst (ScanJPEG exampleJpegEnv (streamReader baseline EOF)
            (Some exifReadsNothing) (Some xmpReadsNothing)) = Returned None
   \<and> callbackCalls (trace (snd (ScanJPEG exampleJpegEnv (streamReader baseline EOF)
            (Some exifReadsNothing) (Some xmpReadsNothing)))) = []"
proof -
  let ?p = "segDHT @ segSOS @ segEOI"
  let ?q = "segSOF0 @ segDHT @ segSOS @ segEOI"
  have a0: "continuesAfter segDQT" by code_simp
  then have a1: "\<forall>s \<in> set [segDQT]. continuesAfter s" by simp
  have a2: "pending (streamReader (segSOI @ segDQT @ ?p) EOF)
       = [markerFirstByte, markerSOI] @ concat [segDQT] @ ?p"
    by (simp add: streamReader_def segSOI_def marker_defs)
  have a3: "16 \<le> length ?p" by code_simp
  have a4: "take 2 ?p = [markerFirstByte, markerDHT]"
    by code_simp
  have b2: "pending (streamReader baseline EOF)
       = [markerFirstByte, markerSOI] @ concat [segDQT] @ ?q"
    by (simp add: streamReader_def baseline_def segSOI_def marker_defs)
  have b3: "16 \<le> length ?q" by code_simp
  have b4: "take 2 ?q = [markerFirstByte, markerSOF0]" "isSOFMarker markerSOF0"
    by code_simp+
  have b5: "declared ?q + 2 \<le> int (length ?q)" by code_simp
  from sentinel_at_DHT_nil_at_frame
         [OF a1 a2 a3, where env = exampleJpegEnv and exifReader = "Some exifReadsNothing"
            and xmpReader = "Some xmpReadsNothing"] a4
       sentinel_at_DHT_nil_at_frame
         [OF a1 b2 b3, where env = exampleJpegEnv and exifReader = "Some exifReadsNothing"
            and xmpReader = "Some xmpReadsNothing" and m = markerSOF0] b4 b5
       a0 a2 a3 b2
  show ?thesis by blast
qed

end
